theory Spec2Isabelle
  imports Complex_Main "HOL-Library.Word" "HOL-Library.Sublist" "HOL-Library.AList"
begin

section \<open>JavaScript strings\<close>

text \<open>
  A JavaScript string is a sequence of UTF-16 code units. String literals of the source are
  written \<open>str ''...''\<close>; all of them are ASCII.
\<close>

type_synonym cu = "16 word"
type_synonym jsstring = "cu list"

definition str :: "string \<Rightarrow> jsstring" where
  "str s = map of_char s"

text \<open>
  \<open>WhiteSpace\<close> and \<open>LineTerminator\<close> of ECMAScript: the code units removed by
  \<open>String.prototype.trim\<close> and matched by \<open>\s\<close> in a regular expression.
\<close>

definition isWhiteSpace :: "cu \<Rightarrow> bool" where
  "isWhiteSpace c \<longleftrightarrow>
     c = 0x9 \<or> c = 0xA \<or> c = 0xB \<or> c = 0xC \<or> c = 0xD \<or> c = 0x20 \<or> c = 0xA0 \<or>
     c = 0x1680 \<or> (0x2000 \<le> c \<and> c \<le> 0x200A) \<or> c = 0x2028 \<or> c = 0x2029 \<or>
     c = 0x202F \<or> c = 0x205F \<or> c = 0x3000 \<or> c = 0xFEFF"

definition isDigit :: "cu \<Rightarrow> bool" where
  "isDigit c \<longleftrightarrow> 0x30 \<le> c \<and> c \<le> 0x39"

definition String_trim :: "jsstring \<Rightarrow> jsstring" where
  "String_trim s = rev (dropWhile isWhiteSpace (rev (dropWhile isWhiteSpace s)))"

text \<open>
  \<open>s.replace(/^p\s*/, '')\<close> for a literal \<open>p\<close>: the pattern is anchored at the start, so
  it removes \<open>p\<close> and the white space after it when \<open>s\<close> starts with \<open>p\<close>, and nothing
  otherwise.
\<close>

definition replace_leading :: "jsstring \<Rightarrow> jsstring \<Rightarrow> jsstring" where
  "replace_leading p s =
     (if prefix p s then dropWhile isWhiteSpace (drop (length p) s) else s)"

text \<open>
  \<open>s.replace(/\s*p$/, '')\<close> for a literal \<open>p\<close>: a match has to end at the end of \<open>s\<close>, and
  the leftmost one starts at the beginning of the white space that precedes the final \<open>p\<close>.
\<close>

definition replace_trailing :: "jsstring \<Rightarrow> jsstring \<Rightarrow> jsstring" where
  "replace_trailing p s =
     (if suffix p s then rev (dropWhile isWhiteSpace (drop (length p) (rev s))) else s)"

text \<open>
  \<open>s.match(/\{[\s\S]*\}/)\<close>: the leftmost match starts at the first \<open>{\<close>; the greedy star runs
  to the last \<open>}\<close> behind it. \<open>None\<close> is the \<open>null\<close> of a failed match, \<open>Some m\<close> is
  \<open>jsonMatch[0]\<close>.
\<close>

definition match_braces :: "jsstring \<Rightarrow> jsstring option" where
  "match_braces s =
     (case dropWhile (\<lambda>c. c \<noteq> 0x7B) s of
        [] \<Rightarrow> None
      | c # t \<Rightarrow>
          (case dropWhile (\<lambda>c. c \<noteq> 0x7D) (rev t) of
             [] \<Rightarrow> None
           | d # u \<Rightarrow> Some (c # rev u @ [d])))"

text \<open>
  One attempt of \<open>/"key":\s*(\d+\.?\d*)ms/\<close> at the start of \<open>s\<close>, where \<open>k\<close> is the
  literal \<open>"key":\<close>. Every quantifier is followed by a character it cannot match itself, so
  backtracking never finds a match that the greedy run misses. The result is the captured
  group and the text behind the match.
\<close>

definition match_ms_unit :: "jsstring \<Rightarrow> jsstring \<Rightarrow> (jsstring \<times> jsstring) option" where
  "match_ms_unit g s = (if prefix (str ''ms'') s then Some (g, drop 2 s) else None)"

definition match_ms_fraction :: "jsstring \<Rightarrow> jsstring \<Rightarrow> (jsstring \<times> jsstring) option" where
  "match_ms_fraction g s =
     (if s \<noteq> [] \<and> hd s = 0x2E
      then match_ms_unit (g @ [0x2E] @ takeWhile isDigit (tl s)) (dropWhile isDigit (tl s))
      else match_ms_unit g s)"

definition match_ms_digits :: "jsstring \<Rightarrow> (jsstring \<times> jsstring) option" where
  "match_ms_digits s =
     (if takeWhile isDigit s = [] then None
      else match_ms_fraction (takeWhile isDigit s) (dropWhile isDigit s))"

definition match_ms :: "jsstring \<Rightarrow> jsstring \<Rightarrow> (jsstring \<times> jsstring) option" where
  "match_ms k s =
     (if prefix k s then match_ms_digits (dropWhile isWhiteSpace (drop (length k) s))
      else None)"

lemma match_ms_unit_shorter: "match_ms_unit g s = Some (h, r) \<Longrightarrow> length r < length s"
  by (auto simp: match_ms_unit_def prefix_def str_def split: if_splits)

lemma match_ms_fraction_shorter:
  assumes "match_ms_fraction g s = Some (h, r)"
  shows "length r < length s"
proof (cases "s \<noteq> [] \<and> hd s = 0x2E")
  case True
  with assms have "length r < length (dropWhile isDigit (tl s))"
    by (auto simp: match_ms_fraction_def dest: match_ms_unit_shorter)
  also have "\<dots> \<le> length (tl s)"
    by (rule length_dropWhile_le)
  finally show ?thesis by simp
next
  case False
  with assms show ?thesis
    by (auto simp: match_ms_fraction_def dest: match_ms_unit_shorter)
qed

lemma match_ms_digits_shorter:
  assumes "match_ms_digits s = Some (h, r)"
  shows "length r < length s"
proof -
  from assms have "length r < length (dropWhile isDigit s)"
    by (auto simp: match_ms_digits_def split: if_splits dest: match_ms_fraction_shorter)
  also have "\<dots> \<le> length s"
    by (rule length_dropWhile_le)
  finally show ?thesis .
qed

lemma match_ms_shorter:
  assumes "match_ms k s = Some (g, r)"
  shows "length r < length s"
proof -
  from assms have "length r < length (dropWhile isWhiteSpace (drop (length k) s))"
    by (auto simp: match_ms_def split: if_splits dest: match_ms_digits_shorter)
  also have "\<dots> \<le> length (drop (length k) s)"
    by (rule length_dropWhile_le)
  also have "\<dots> \<le> length s"
    by simp
  finally show ?thesis .
qed

text \<open>
  \<open>s.replace(/"key":\s*(\d+\.?\d*)ms/g, '"key": $1')\<close>: the global replacement scans from
  left to right, replaces a match by \<open>"key": \<close> and the captured group, and goes on behind it.
\<close>

function replace_ms :: "jsstring \<Rightarrow> jsstring \<Rightarrow> jsstring" where
  "replace_ms k [] = []"
| "replace_ms k (c # cs) =
     (case match_ms k (c # cs) of
        Some (g, r) \<Rightarrow> k @ str '' '' @ g @ replace_ms k r
      | None \<Rightarrow> c # replace_ms k cs)"
  by pat_completeness auto
termination
  by (relation "measure (\<lambda>(k, s). length s)") (auto dest: match_ms_shorter)

text \<open>\<open>s.replace(/p/g, r)\<close> for a literal, non-empty \<open>p\<close> and a replacement without \<open>$\<close>.\<close>

function replace_all :: "jsstring \<Rightarrow> jsstring \<Rightarrow> jsstring \<Rightarrow> jsstring" where
  "replace_all p r [] = []"
| "replace_all p r (c # cs) =
     (if p \<noteq> [] \<and> prefix p (c # cs) then r @ replace_all p r (drop (length p - 1) cs)
      else c # replace_all p r cs)"
  by pat_completeness auto
termination
  by (relation "measure (\<lambda>(p, r, s). length s)") auto

section \<open>Numbers\<close>

text \<open>
  A JavaScript number is an IEEE 754 double: a rational of the binary64 format, an infinity
  or \<open>NaN\<close>. The two zeros are one value here: the program compares and prints numbers,
  and neither tells \<open>-0\<close> from \<open>0\<close>.
\<close>

datatype jsnum = NaN | PosInf | NegInf | Fin rat

text \<open>The number of digits of \<open>n\<close> in base \<open>b\<close>.\<close>

function numlen :: "int \<Rightarrow> int \<Rightarrow> int" where
  "numlen b n = (if n \<le> 0 \<or> b < 2 then 0 else 1 + numlen b (n div b))"
  by pat_completeness auto
termination
  by (relation "measure (\<lambda>(b, n). nat n)") (auto simp: zdiv_mono2 intro: int_div_less_self)

declare numlen.simps [simp del]

text \<open>Powers with an integer exponent, by repeated squaring.\<close>

function ipow :: "rat \<Rightarrow> int \<Rightarrow> rat" where
  "ipow b e =
     (if e \<le> 0 then 1
      else if even e then ipow (b * b) (e div 2)
      else b * ipow (b * b) (e div 2))"
  by pat_completeness auto
termination
  by (relation "measure (\<lambda>(b, e). nat e)") auto

declare ipow.simps [simp del]

definition pow :: "rat \<Rightarrow> int \<Rightarrow> rat" where
  "pow b e = (if 0 \<le> e then ipow b e else 1 / ipow b (- e))"

text \<open>\<open>floor_log b q\<close> is the integer \<open>e\<close> with \<open>b ^ e \<le> q < b ^ (e + 1)\<close>, for \<open>q > 0\<close>.\<close>

definition floor_log :: "int \<Rightarrow> rat \<Rightarrow> int" where
  "floor_log b q =
     (case quotient_of q of
        (n, d) \<Rightarrow>
          if pow (of_int b) (numlen b n - numlen b d) \<le> q
          then numlen b n - numlen b d
          else numlen b n - numlen b d - 1)"

definition round_half_even :: "rat \<Rightarrow> int" where
  "round_half_even x =
     (if x - of_int \<lfloor>x\<rfloor> < 1 / 2 then \<lfloor>x\<rfloor>
      else if 1 / 2 < x - of_int \<lfloor>x\<rfloor> then \<lfloor>x\<rfloor> + 1
      else if even \<lfloor>x\<rfloor> then \<lfloor>x\<rfloor>
      else \<lfloor>x\<rfloor> + 1)"

text \<open>
  Rounding a rational to the nearest double, ties to even: 53 significant bits, the exponent
  of the least normal number for everything below it, and an infinity from \<open>2 ^ 1024\<close> on.
  \<open>double_ulp a\<close> is the distance between the doubles around \<open>a > 0\<close>.
\<close>

definition double_ulp :: "rat \<Rightarrow> rat" where
  "double_ulp a = pow 2 (max (floor_log 2 a) (- 1022) - 52)"

definition round_to :: "rat \<Rightarrow> rat \<Rightarrow> rat" where
  "round_to u a = of_int (round_half_even (a / u)) * u"

definition overflow :: "rat \<Rightarrow> jsnum" where
  "overflow r =
     (if pow 2 1024 \<le> r then PosInf else if r \<le> - pow 2 1024 then NegInf else Fin r)"

definition to_double :: "rat \<Rightarrow> jsnum" where
  "to_double q =
     (if q = 0 then Fin 0
      else if 0 < q then overflow (round_to (double_ulp q) q)
      else overflow (- round_to (double_ulp (- q)) (- q)))"

text \<open>\<open>x < y\<close> on numbers; \<open>None\<close> is the \<open>undefined\<close> that a comparison with \<open>NaN\<close> gives.\<close>

fun num_less :: "jsnum \<Rightarrow> jsnum \<Rightarrow> bool option" where
  "num_less NaN y = None"
| "num_less x NaN = None"
| "num_less x NegInf = Some False"
| "num_less NegInf y = Some True"
| "num_less PosInf y = Some False"
| "num_less x PosInf = Some True"
| "num_less (Fin a) (Fin b) = Some (a < b)"

text \<open>The value of a decimal literal: sign, integer digits, fraction digits, exponent.\<close>

definition digits_val :: "jsstring \<Rightarrow> int" where
  "digits_val ds = foldl (\<lambda>a c. 10 * a + uint (c - 0x30)) 0 ds"

definition decimal :: "bool \<Rightarrow> jsstring \<Rightarrow> jsstring \<Rightarrow> int \<Rightarrow> jsnum" where
  "decimal neg ip fp e =
     to_double ((if neg then - 1 else 1) * of_int (digits_val (ip @ fp)) *
                pow 10 (e - int (length fp)))"

text \<open>
  An exponent part (\<open>e\<close> or \<open>E\<close>, an optional sign, digits) at the start of \<open>s\<close>: its value
  and the text behind it.
\<close>

definition scan_exponent_digits :: "bool \<Rightarrow> jsstring \<Rightarrow> (int \<times> jsstring) option" where
  "scan_exponent_digits neg s =
     (if takeWhile isDigit s = [] then None
      else Some ((if neg then - 1 else 1) * digits_val (takeWhile isDigit s),
                 dropWhile isDigit s))"

definition scan_exponent :: "jsstring \<Rightarrow> (int \<times> jsstring) option" where
  "scan_exponent s =
     (case s of
        [] \<Rightarrow> None
      | c # s1 \<Rightarrow>
          if c = 0x65 \<or> c = 0x45 then
            (if s1 \<noteq> [] \<and> hd s1 = 0x2D then scan_exponent_digits True (tl s1)
             else if s1 \<noteq> [] \<and> hd s1 = 0x2B then scan_exponent_digits False (tl s1)
             else scan_exponent_digits False s1)
          else None)"

section \<open>Values\<close>

text \<open>
  The values the program handles: what \<open>JSON.parse\<close> builds, and \<open>undefined\<close>. An object
  is the list of its own properties in the order in which the language enumerates them: the
  names that are array indices in ascending order, then the other names in the order of
  their creation.
\<close>

datatype jsval =
    JUndefined
  | JNull
  | JBool bool
  | JNum jsnum
  | JStr jsstring
  | JArr "jsval list"
  | JObj "(jsstring \<times> jsval) list"

datatype js_error = TypeError | SyntaxError | ExternalError

text \<open>
  An array index is the decimal notation, without a leading zero, of an integer from \<open>0\<close> to
  \<open>2 ^ 32 - 2\<close>.
\<close>

definition array_index :: "jsstring \<Rightarrow> int option" where
  "array_index k =
     (if k \<noteq> [] \<and> list_all isDigit k \<and> (if hd k = 0x30 then length k = 1 else True) \<and>
         digits_val k < 4294967295
      then Some (digits_val k)
      else None)"

fun insert_index ::
    "int \<Rightarrow> jsstring \<times> jsval \<Rightarrow> (jsstring \<times> jsval) list \<Rightarrow> (jsstring \<times> jsval) list" where
  "insert_index i p [] = [p]"
| "insert_index i p (m # ms) =
     (case array_index (fst m) of
        None \<Rightarrow> p # m # ms
      | Some j \<Rightarrow> if j < i then m # insert_index i p ms else p # m # ms)"

text \<open>
  \<open>CreateDataProperty\<close> on the properties of an object: a property that exists keeps its
  place and gets the value, a new one is put where the enumeration has it.
\<close>

definition CreateDataProperty ::
    "(jsstring \<times> jsval) list \<Rightarrow> jsstring \<Rightarrow> jsval \<Rightarrow> (jsstring \<times> jsval) list" where
  "CreateDataProperty ms k v =
     (if map_of ms k \<noteq> None then AList.update k v ms
      else case array_index k of
             None \<Rightarrow> ms @ [(k, v)]
           | Some i \<Rightarrow> insert_index i (k, v) ms)"

section \<open>JSON.parse\<close>

datatype token =
    TLBrace | TRBrace | TLBracket | TRBracket | TColon | TComma
  | TString jsstring | TNumber jsnum | TTrue | TFalse | TNull

definition hexval :: "cu \<Rightarrow> cu option" where
  "hexval c =
     (if 0x30 \<le> c \<and> c \<le> 0x39 then Some (c - 0x30)
      else if 0x41 \<le> c \<and> c \<le> 0x46 then Some (c - 0x41 + 10)
      else if 0x61 \<le> c \<and> c \<le> 0x66 then Some (c - 0x61 + 10)
      else None)"

definition hex4 :: "cu \<Rightarrow> cu \<Rightarrow> cu \<Rightarrow> cu \<Rightarrow> cu option" where
  "hex4 a b c d =
     (case (hexval a, hexval b, hexval c, hexval d) of
        (Some x, Some y, Some z, Some w) \<Rightarrow> Some (((x * 16 + y) * 16 + z) * 16 + w)
      | _ \<Rightarrow> None)"

text \<open>The character that a backslash and \<open>c\<close> stand for in a JSON string.\<close>

definition escape_char :: "cu \<Rightarrow> cu option" where
  "escape_char c =
     (if c = 0x22 \<or> c = 0x5C \<or> c = 0x2F then Some c
      else if c = 0x62 then Some 0x8
      else if c = 0x66 then Some 0xC
      else if c = 0x6E then Some 0xA
      else if c = 0x72 then Some 0xD
      else if c = 0x74 then Some 0x9
      else None)"

definition cons_fst :: "'a \<Rightarrow> ('a list \<times> 'b) option \<Rightarrow> ('a list \<times> 'b) option" where
  "cons_fst x r = map_option (\<lambda>(xs, y). (x # xs, y)) r"

text \<open>
  The content of a string literal, read behind its opening quote, and the text behind its
  closing quote.
\<close>

fun lex_string :: "jsstring \<Rightarrow> (jsstring \<times> jsstring) option" where
  "lex_string [] = None"
| "lex_string (c # cs) =
     (if c = 0x22 then Some ([], cs)
      else if c = 0x5C then
        (case cs of
           [] \<Rightarrow> None
         | e # r \<Rightarrow>
             if e = 0x75 then
               (case r of
                  h1 # h2 # h3 # h4 # r' \<Rightarrow>
                    (case hex4 h1 h2 h3 h4 of
                       None \<Rightarrow> None
                     | Some u \<Rightarrow> cons_fst u (lex_string r'))
                | _ \<Rightarrow> None)
             else
               (case escape_char e of
                  None \<Rightarrow> None
                | Some u \<Rightarrow> cons_fst u (lex_string r)))
      else if c < 0x20 then None
      else cons_fst c (lex_string cs))"

text \<open>
  A number literal at the start of \<open>s\<close>: its value and the text behind it. The grammar is
  an optional minus, then \<open>0\<close> or digits that do not start with \<open>0\<close>, then an optional
  fraction with at least one digit, then an optional exponent part.
\<close>

definition lex_exponent ::
    "bool \<Rightarrow> jsstring \<Rightarrow> jsstring \<Rightarrow> jsstring \<Rightarrow> (jsnum \<times> jsstring) option" where
  "lex_exponent neg ip fp s =
     (if s \<noteq> [] \<and> (hd s = 0x65 \<or> hd s = 0x45) then
        (case scan_exponent s of
           None \<Rightarrow> None
         | Some (e, r) \<Rightarrow> Some (decimal neg ip fp e, r))
      else Some (decimal neg ip fp 0, s))"

definition lex_fraction :: "bool \<Rightarrow> jsstring \<Rightarrow> jsstring \<Rightarrow> (jsnum \<times> jsstring) option" where
  "lex_fraction neg ip s =
     (if s \<noteq> [] \<and> hd s = 0x2E then
        (if takeWhile isDigit (tl s) = [] then None
         else lex_exponent neg ip (takeWhile isDigit (tl s)) (dropWhile isDigit (tl s)))
      else lex_exponent neg ip [] s)"

definition lex_int :: "bool \<Rightarrow> jsstring \<Rightarrow> (jsnum \<times> jsstring) option" where
  "lex_int neg s =
     (if s \<noteq> [] \<and> hd s = 0x30 then lex_fraction neg [0x30] (tl s)
      else if takeWhile isDigit s = [] then None
      else lex_fraction neg (takeWhile isDigit s) (dropWhile isDigit s))"

definition lex_number :: "jsstring \<Rightarrow> (jsnum \<times> jsstring) option" where
  "lex_number s = (if s \<noteq> [] \<and> hd s = 0x2D then lex_int True (tl s) else lex_int False s)"

lemma cons_fst_Some: "cons_fst x r = Some (ys, t) \<Longrightarrow> \<exists>xs. r = Some (xs, t)"
  by (cases r) (auto simp: cons_fst_def)

lemma lex_string_shorter: "lex_string cs = Some (s, r) \<Longrightarrow> length r < length cs"
proof (induction cs arbitrary: s rule: lex_string.induct)
  case 1
  then show ?case by simp
next
  case (2 c cs)
  show ?case
  proof (cases "c = 0x22")
    case True
    with "2.prems" show ?thesis by simp
  next
    case quote: False
    show ?thesis
    proof (cases "c = 0x5C")
      case False
      with quote "2.prems" obtain xs where "lex_string cs = Some (xs, r)"
        by (auto split: if_splits dest: cons_fst_Some)
      with "2.IH"(3)[OF quote False] quote False "2.prems" show ?thesis
        by (fastforce split: if_splits)
    next
      case True
      with quote "2.prems" obtain e t where cs: "cs = e # t"
        by (cases cs) auto
      show ?thesis
      proof (cases "e = 0x75")
        case False
        with quote True cs "2.prems" obtain u xs where
          "escape_char e = Some u" "lex_string t = Some (xs, r)"
          by (auto split: option.splits dest: cons_fst_Some)
        with "2.IH"(2)[OF quote True cs False] cs show ?thesis
          by fastforce
      next
        case u: True
        with quote True cs "2.prems" obtain h1 h2 h3 h4 t' where t: "t = h1 # h2 # h3 # h4 # t'"
          by (auto split: list.splits)
        with quote True cs u "2.prems" obtain v xs where
          v: "hex4 h1 h2 h3 h4 = Some v" and "lex_string t' = Some (xs, r)"
          by (auto split: option.splits dest: cons_fst_Some)
        with "2.IH"(1)[OF quote True cs u t] cs t show ?thesis
          by fastforce
      qed
    qed
  qed
qed

lemma scan_exponent_digits_shorter:
  "scan_exponent_digits neg s = Some (e, r) \<Longrightarrow> length r \<le> length s"
  by (auto simp: scan_exponent_digits_def length_dropWhile_le split: if_splits)

lemma scan_exponent_shorter: "scan_exponent s = Some (e, r) \<Longrightarrow> length r \<le> length s"
  by (cases s)
     (auto simp: scan_exponent_def split: if_splits
           dest!: scan_exponent_digits_shorter intro: le_SucI)

lemma lex_exponent_shorter: "lex_exponent neg ip fp s = Some (n, r) \<Longrightarrow> length r \<le> length s"
  by (auto simp: lex_exponent_def split: if_splits option.splits dest: scan_exponent_shorter)

lemma lex_fraction_shorter:
  assumes "lex_fraction neg ip s = Some (n, r)"
  shows "length r \<le> length s"
proof (cases "s \<noteq> [] \<and> hd s = 0x2E")
  case True
  with assms have "length r \<le> length (dropWhile isDigit (tl s))"
    by (auto simp: lex_fraction_def split: if_splits dest: lex_exponent_shorter)
  also have "\<dots> \<le> length (tl s)"
    by (rule length_dropWhile_le)
  finally show ?thesis by simp
next
  case False
  with assms show ?thesis
    by (auto simp: lex_fraction_def dest: lex_exponent_shorter)
qed

lemma lex_int_shorter:
  assumes "lex_int neg s = Some (n, r)"
  shows "length r < length s"
proof (cases "s \<noteq> [] \<and> hd s = 0x30")
  case True
  with assms have "length r \<le> length (tl s)"
    by (auto simp: lex_int_def dest: lex_fraction_shorter)
  with True show ?thesis by (cases s) auto
next
  case False
  with assms have d: "takeWhile isDigit s \<noteq> []"
    and "length r \<le> length (dropWhile isDigit s)"
    by (auto simp: lex_int_def split: if_splits dest: lex_fraction_shorter)
  moreover from d have "length (dropWhile isDigit s) < length s"
    by (cases s) (auto split: if_splits intro: le_imp_less_Suc length_dropWhile_le)
  ultimately show ?thesis by simp
qed

lemma lex_number_shorter: "lex_number s = Some (n, r) \<Longrightarrow> length r < length s"
  by (cases s) (auto simp: lex_number_def split: if_splits dest: lex_int_shorter intro: less_SucI)

text \<open>
  The tokens of a JSON text. Its white space is space, tab, line feed and carriage return
  only; every other code unit outside a token is an error.
\<close>

function lex :: "jsstring \<Rightarrow> token list option" where
  "lex [] = Some []"
| "lex (c # cs) =
     (if c = 0x20 \<or> c = 0x9 \<or> c = 0xA \<or> c = 0xD then lex cs
      else if c = 0x7B then map_option ((#) TLBrace) (lex cs)
      else if c = 0x7D then map_option ((#) TRBrace) (lex cs)
      else if c = 0x5B then map_option ((#) TLBracket) (lex cs)
      else if c = 0x5D then map_option ((#) TRBracket) (lex cs)
      else if c = 0x3A then map_option ((#) TColon) (lex cs)
      else if c = 0x2C then map_option ((#) TComma) (lex cs)
      else if c = 0x22 then
        (case lex_string cs of
           None \<Rightarrow> None
         | Some (s, r) \<Rightarrow> map_option ((#) (TString s)) (lex r))
      else if c = 0x2D \<or> isDigit c then
        (case lex_number (c # cs) of
           None \<Rightarrow> None
         | Some (n, r) \<Rightarrow> map_option ((#) (TNumber n)) (lex r))
      else if prefix (str ''true'') (c # cs) then map_option ((#) TTrue) (lex (drop 3 cs))
      else if prefix (str ''false'') (c # cs) then map_option ((#) TFalse) (lex (drop 4 cs))
      else if prefix (str ''null'') (c # cs) then map_option ((#) TNull) (lex (drop 3 cs))
      else None)"
  by pat_completeness auto
termination
  by (relation "measure length")
     (auto dest: lex_string_shorter lex_number_shorter intro: less_SucI)

text \<open>
  The grammar of JSON values over the tokens, as a machine with a stack of the arrays and
  objects that are open. A member of an object that repeats a name replaces the value of
  the earlier one.
\<close>

datatype frame = FArr "jsval list" | FObj "(jsstring \<times> jsval) list" | FKey jsstring

datatype pmode = PValue | PArrStart | PObjStart | PKey | PColon | PAfter | PDone jsval

fun add_value :: "jsval \<Rightarrow> frame list \<Rightarrow> (pmode \<times> frame list) option" where
  "add_value v [] = Some (PDone v, [])"
| "add_value v (FArr vs # st) = Some (PAfter, FArr (vs @ [v]) # st)"
| "add_value v (FKey k # FObj ms # st) = Some (PAfter, FObj (CreateDataProperty ms k v) # st)"
| "add_value v st = None"

fun start_value :: "token \<Rightarrow> frame list \<Rightarrow> (pmode \<times> frame list) option" where
  "start_value (TString s) st = add_value (JStr s) st"
| "start_value (TNumber n) st = add_value (JNum n) st"
| "start_value TTrue st = add_value (JBool True) st"
| "start_value TFalse st = add_value (JBool False) st"
| "start_value TNull st = add_value JNull st"
| "start_value TLBracket st = Some (PArrStart, FArr [] # st)"
| "start_value TLBrace st = Some (PObjStart, FObj [] # st)"
| "start_value t st = None"

fun close_value :: "token \<Rightarrow> frame list \<Rightarrow> (pmode \<times> frame list) option" where
  "close_value TRBracket (FArr vs # st) = add_value (JArr vs) st"
| "close_value TRBrace (FObj ms # st) = add_value (JObj ms) st"
| "close_value t st = None"

fun pstep :: "pmode \<Rightarrow> frame list \<Rightarrow> token \<Rightarrow> (pmode \<times> frame list) option" where
  "pstep PValue st t = start_value t st"
| "pstep PArrStart st t = (if t = TRBracket then close_value t st else start_value t st)"
| "pstep PObjStart st t =
     (case t of TString k \<Rightarrow> Some (PColon, FKey k # st) | _ \<Rightarrow> close_value t st)"
| "pstep PKey st t = (case t of TString k \<Rightarrow> Some (PColon, FKey k # st) | _ \<Rightarrow> None)"
| "pstep PColon st t = (if t = TColon then Some (PValue, st) else None)"
| "pstep PAfter st t =
     (if t = TComma then
        (case st of
           FArr vs # _ \<Rightarrow> Some (PValue, st)
         | FObj ms # _ \<Rightarrow> Some (PKey, st)
         | _ \<Rightarrow> None)
      else close_value t st)"
| "pstep (PDone v) st t = None"

fun parse_tokens :: "pmode \<Rightarrow> frame list \<Rightarrow> token list \<Rightarrow> jsval option" where
  "parse_tokens m st [] = (case m of PDone v \<Rightarrow> Some v | _ \<Rightarrow> None)"
| "parse_tokens m st (t # ts) =
     (case pstep m st t of
        None \<Rightarrow> None
      | Some (m', st') \<Rightarrow> parse_tokens m' st' ts)"

text \<open>\<open>JSON.parse(s)\<close>: the value, or the \<open>SyntaxError\<close> it throws.\<close>

definition JSON_parse :: "jsstring \<Rightarrow> js_error + jsval" where
  "JSON_parse s =
     (case lex s of
        None \<Rightarrow> Inl SyntaxError
      | Some ts \<Rightarrow>
          (case parse_tokens PValue [] ts of
             None \<Rightarrow> Inl SyntaxError
           | Some v \<Rightarrow> Inr v))"

section \<open>Conversions and operators\<close>

subsection \<open>Numbers to strings\<close>

text \<open>The decimal digits of \<open>n \<ge> 0\<close>.\<close>

function digits_of :: "int \<Rightarrow> jsstring" where
  "digits_of n =
     (if n < 10 then [0x30 + word_of_int n] else digits_of (n div 10) @ [0x30 + word_of_int (n mod 10)])"
  by pat_completeness auto
termination
  by (relation "measure nat") auto

declare digits_of.simps [simp del]

text \<open>
  \<open>Number::toString\<close> picks the shortest digit string \<open>s\<close> and the exponent \<open>e\<close> such that
  \<open>s * 10 ^ e\<close> rounds to the number \<open>q > 0\<close>, and among several the closest to \<open>q\<close>. With
  \<open>k\<close> digits, \<open>s\<close> is one of the two integers around \<open>q / 10 ^ e\<close>.
\<close>

definition rounds_to :: "rat \<Rightarrow> int \<Rightarrow> int \<Rightarrow> bool" where
  "rounds_to q e s \<longleftrightarrow> to_double (of_int s * pow 10 e) = Fin q"

definition nearer :: "rat \<Rightarrow> int \<Rightarrow> int \<Rightarrow> int" where
  "nearer q e lo =
     (if q - of_int lo * pow 10 e < of_int (lo + 1) * pow 10 e - q then lo
      else if of_int (lo + 1) * pow 10 e - q < q - of_int lo * pow 10 e then lo + 1
      else if even lo then lo
      else lo + 1)"

definition candidate :: "rat \<Rightarrow> int \<Rightarrow> int \<Rightarrow> int option" where
  "candidate q e lo =
     (if rounds_to q e lo then (if rounds_to q e (lo + 1) then Some (nearer q e lo) else Some lo)
      else if rounds_to q e (lo + 1) then Some (lo + 1)
      else None)"

text \<open>
  The search tries \<open>k = 1, 2, \<dots>\<close> digits, where \<open>n\<close> is the number of digits of \<open>q\<close> before
  the decimal point. Seventeen digits determine a double, so the search ends there.
\<close>

fun shortest :: "nat \<Rightarrow> rat \<Rightarrow> int \<Rightarrow> int \<Rightarrow> int \<times> int" where
  "shortest j q n k =
     (case candidate q (n - k) \<lfloor>q / pow 10 (n - k)\<rfloor> of
        Some s \<Rightarrow> (s, n - k)
      | None \<Rightarrow>
          (case j of
             0 \<Rightarrow> (nearer q (n - k) \<lfloor>q / pow 10 (n - k)\<rfloor>, n - k)
           | Suc i \<Rightarrow> shortest i q n (k + 1)))"

definition strip_zeros :: "jsstring \<Rightarrow> jsstring" where
  "strip_zeros ds = rev (dropWhile (\<lambda>c. c = 0x30) (rev ds))"

text \<open>
  The notation: \<open>ds\<close> are the \<open>k\<close> significant digits and \<open>n\<close> is the position of the decimal
  point behind the first of them.
\<close>

definition exponent_notation :: "jsstring \<Rightarrow> int \<Rightarrow> jsstring" where
  "exponent_notation ds n =
     (if length ds = 1 then ds else take 1 ds @ str ''.'' @ drop 1 ds) @
     (if n - 1 < 0 then str ''e-'' else str ''e+'') @ digits_of \<bar>n - 1\<bar>"

definition number_notation :: "jsstring \<Rightarrow> int \<Rightarrow> jsstring" where
  "number_notation ds n =
     (if int (length ds) \<le> n \<and> n \<le> 21 then ds @ replicate (nat (n - int (length ds))) 0x30
      else if 0 < n \<and> n \<le> 21 then take (nat n) ds @ str ''.'' @ drop (nat n) ds
      else if - 6 < n \<and> n \<le> 0 then str ''0.'' @ replicate (nat (- n)) 0x30 @ ds
      else exponent_notation ds n)"

definition positive_toString :: "rat \<Rightarrow> jsstring" where
  "positive_toString q =
     (case shortest 16 q (floor_log 10 q + 1) 1 of
        (s, e) \<Rightarrow> number_notation (strip_zeros (digits_of s)) (e + int (length (digits_of s))))"

fun Number_toString :: "jsnum \<Rightarrow> jsstring" where
  "Number_toString NaN = str ''NaN''"
| "Number_toString PosInf = str ''Infinity''"
| "Number_toString NegInf = str ''-Infinity''"
| "Number_toString (Fin q) =
     (if q = 0 then str ''0''
      else if q < 0 then str ''-'' @ positive_toString (- q)
      else positive_toString q)"

subsection \<open>Strings to numbers\<close>

text \<open>
  The longest prefix of \<open>s\<close> that is a \<open>StrDecimalLiteral\<close>: a sign, then \<open>Infinity\<close> or
  digits with an optional fraction and an optional exponent part; a digit is required before
  or behind the point. The result is its value and the text behind it.
\<close>

definition scan_decimal_exponent ::
    "bool \<Rightarrow> jsstring \<Rightarrow> jsstring \<Rightarrow> jsstring \<Rightarrow> (jsnum \<times> jsstring) option" where
  "scan_decimal_exponent neg ip fp s =
     (case scan_exponent s of
        None \<Rightarrow> Some (decimal neg ip fp 0, s)
      | Some (e, r) \<Rightarrow> Some (decimal neg ip fp e, r))"

definition scan_decimal_fraction :: "bool \<Rightarrow> jsstring \<Rightarrow> jsstring \<Rightarrow> (jsnum \<times> jsstring) option" where
  "scan_decimal_fraction neg ip s =
     (if s \<noteq> [] \<and> hd s = 0x2E then
        (if ip = [] \<and> takeWhile isDigit (tl s) = [] then None
         else scan_decimal_exponent neg ip (takeWhile isDigit (tl s)) (dropWhile isDigit (tl s)))
      else if ip = [] then None
      else scan_decimal_exponent neg ip [] s)"

definition scan_unsigned :: "bool \<Rightarrow> jsstring \<Rightarrow> (jsnum \<times> jsstring) option" where
  "scan_unsigned neg s =
     (if prefix (str ''Infinity'') s then Some (if neg then NegInf else PosInf, drop 8 s)
      else scan_decimal_fraction neg (takeWhile isDigit s) (dropWhile isDigit s))"

definition scan_decimal :: "jsstring \<Rightarrow> (jsnum \<times> jsstring) option" where
  "scan_decimal s =
     (if s \<noteq> [] \<and> hd s = 0x2D then scan_unsigned True (tl s)
      else if s \<noteq> [] \<and> hd s = 0x2B then scan_unsigned False (tl s)
      else scan_unsigned False s)"

text \<open>\<open>parseFloat(s)\<close> for a string \<open>s\<close>.\<close>

definition parseFloat :: "jsstring \<Rightarrow> jsnum" where
  "parseFloat s =
     (case scan_decimal (dropWhile isWhiteSpace s) of
        None \<Rightarrow> NaN
      | Some (n, r) \<Rightarrow> n)"

text \<open>
  The digits of a literal in base 2, 8 or 16, behind its prefix: \<open>None\<close> unless all of \<open>s\<close>
  are digits of the base.
\<close>

definition radix_digit :: "int \<Rightarrow> cu \<Rightarrow> int option" where
  "radix_digit b c =
     (case hexval c of
        None \<Rightarrow> None
      | Some d \<Rightarrow> if uint d < b then Some (uint d) else None)"

fun radix_val :: "int \<Rightarrow> int \<Rightarrow> jsstring \<Rightarrow> int option" where
  "radix_val b a [] = Some a"
| "radix_val b a (c # cs) =
     (case radix_digit b c of
        None \<Rightarrow> None
      | Some d \<Rightarrow> radix_val b (b * a + d) cs)"

definition radix_literal :: "int \<Rightarrow> jsstring \<Rightarrow> jsnum" where
  "radix_literal b s =
     (if s = [] then NaN
      else case radix_val b 0 s of None \<Rightarrow> NaN | Some a \<Rightarrow> to_double (of_int a))"

text \<open>
  \<open>StringToNumber\<close>, the conversion of a string by \<open>ToNumber\<close>: white space around the
  literal is dropped, the empty string is \<open>0\<close>, and the literal has to be all of the rest.
\<close>

definition StringNumericLiteral :: "jsstring \<Rightarrow> jsnum" where
  "StringNumericLiteral s =
     (if s = [] then Fin 0
      else if prefix (str ''0x'') s \<or> prefix (str ''0X'') s then radix_literal 16 (drop 2 s)
      else if prefix (str ''0o'') s \<or> prefix (str ''0O'') s then radix_literal 8 (drop 2 s)
      else if prefix (str ''0b'') s \<or> prefix (str ''0B'') s then radix_literal 2 (drop 2 s)
      else case scan_decimal s of
             None \<Rightarrow> NaN
           | Some (n, r) \<Rightarrow> if r = [] then n else NaN)"

definition StringToNumber :: "jsstring \<Rightarrow> jsnum" where
  "StringToNumber s = StringNumericLiteral (String_trim s)"

subsection \<open>Values to strings and numbers\<close>

text \<open>\<open>Array.prototype.join\<close> on strings.\<close>

fun Array_join :: "jsstring \<Rightarrow> jsstring list \<Rightarrow> jsstring" where
  "Array_join sep [] = []"
| "Array_join sep [x] = x"
| "Array_join sep (x # y # r) = x @ sep @ Array_join sep (y # r)"

text \<open>\<open>Array.prototype.map\<close> with a callback that may throw.\<close>

fun Array_map :: "('a \<Rightarrow> js_error + 'b) \<Rightarrow> 'a list \<Rightarrow> js_error + 'b list" where
  "Array_map f [] = Inr []"
| "Array_map f (x # xs) =
     (case f x of
        Inl e \<Rightarrow> Inl e
      | Inr y \<Rightarrow>
          (case Array_map f xs of
             Inl e \<Rightarrow> Inl e
           | Inr ys \<Rightarrow> Inr (y # ys)))"

lemma Array_map_cong [fundef_cong]:
  "xs = ys \<Longrightarrow> (\<And>x. x \<in> set ys \<Longrightarrow> f x = g x) \<Longrightarrow> Array_map f xs = Array_map g ys"
proof (induction ys arbitrary: xs)
  case Nil
  then show ?case by simp
next
  case (Cons y ys)
  then have "Array_map f ys = Array_map g ys" and "f y = g y"
    by simp_all
  with Cons.prems(1) show ?case by (simp split: sum.splits)
qed

text \<open>
  \<open>ToString\<close>. An array is the strings of its elements joined by commas, with nothing for
  \<open>null\<close> and \<open>undefined\<close>. An object from \<open>JSON.parse\<close> is \<open>[object Object]\<close> by the method
  \<open>toString\<close> that it inherits; a property \<open>toString\<close> of its own hides this method, is not
  a function, and the conversion throws a \<open>TypeError\<close>.
\<close>

fun ToString :: "jsval \<Rightarrow> js_error + jsstring" where
  "ToString JUndefined = Inr (str ''undefined'')"
| "ToString JNull = Inr (str ''null'')"
| "ToString (JBool b) = Inr (if b then str ''true'' else str ''false'')"
| "ToString (JNum n) = Inr (Number_toString n)"
| "ToString (JStr s) = Inr s"
| "ToString (JArr xs) =
     (case Array_map (\<lambda>x. if x = JNull \<or> x = JUndefined then Inr [] else ToString x) xs of
        Inl e \<Rightarrow> Inl e
      | Inr ss \<Rightarrow> Inr (Array_join (str '','') ss))"
| "ToString (JObj ms) =
     (if map_of ms (str ''toString'') = None then Inr (str ''[object Object]'')
      else Inl TypeError)"

text \<open>
  \<open>ToPrimitive\<close>: an array or an object becomes its string. The method \<open>valueOf\<close> that is
  tried first returns the object itself, or is hidden by a property that is not a function.
\<close>

fun ToPrimitive :: "jsval \<Rightarrow> js_error + jsval" where
  "ToPrimitive (JArr xs) = (case ToString (JArr xs) of Inl e \<Rightarrow> Inl e | Inr s \<Rightarrow> Inr (JStr s))"
| "ToPrimitive (JObj ms) = (case ToString (JObj ms) of Inl e \<Rightarrow> Inl e | Inr s \<Rightarrow> Inr (JStr s))"
| "ToPrimitive v = Inr v"

text \<open>\<open>ToNumber\<close>: an array or an object is converted by way of its string.\<close>

fun ToNumber :: "jsval \<Rightarrow> js_error + jsnum" where
  "ToNumber JUndefined = Inr NaN"
| "ToNumber JNull = Inr (Fin 0)"
| "ToNumber (JBool b) = Inr (if b then Fin 1 else Fin 0)"
| "ToNumber (JNum n) = Inr n"
| "ToNumber (JStr s) = Inr (StringToNumber s)"
| "ToNumber (JArr xs) =
     (case ToString (JArr xs) of Inl e \<Rightarrow> Inl e | Inr s \<Rightarrow> Inr (StringToNumber s))"
| "ToNumber (JObj ms) =
     (case ToString (JObj ms) of Inl e \<Rightarrow> Inl e | Inr s \<Rightarrow> Inr (StringToNumber s))"

text \<open>The global \<open>isNaN\<close> converts its argument to a number first.\<close>

definition isNaN :: "jsval \<Rightarrow> js_error + bool" where
  "isNaN v = (case ToNumber v of Inl e \<Rightarrow> Inl e | Inr n \<Rightarrow> Inr (n = NaN))"

text \<open>The order of strings: by code units, a proper prefix first.\<close>

fun string_less :: "jsstring \<Rightarrow> jsstring \<Rightarrow> bool" where
  "string_less xs [] = False"
| "string_less [] (y # ys) = True"
| "string_less (x # xs) (y # ys) = (x < y \<or> (x = y \<and> string_less xs ys))"

text \<open>
  \<open>IsLessThan\<close>: both operands are made primitive, two strings are compared as strings,
  everything else as numbers, and a comparison with \<open>NaN\<close> is undefined. The only exception
  is the \<open>TypeError\<close> of a conversion, so the order of the two conversions does not show.
\<close>

fun primitive_less :: "jsval \<Rightarrow> jsval \<Rightarrow> js_error + bool option" where
  "primitive_less (JStr a) (JStr b) = Inr (Some (string_less a b))"
| "primitive_less x y =
     (case ToNumber x of
        Inl e \<Rightarrow> Inl e
      | Inr m \<Rightarrow> (case ToNumber y of Inl e \<Rightarrow> Inl e | Inr n \<Rightarrow> Inr (num_less m n)))"

definition IsLessThan :: "jsval \<Rightarrow> jsval \<Rightarrow> js_error + bool option" where
  "IsLessThan x y =
     (case ToPrimitive x of
        Inl e \<Rightarrow> Inl e
      | Inr px \<Rightarrow> (case ToPrimitive y of Inl e \<Rightarrow> Inl e | Inr py \<Rightarrow> primitive_less px py))"

text \<open>\<open>a >= b\<close> is true when \<open>a < b\<close> is false, \<open>a > b\<close> is true when \<open>b < a\<close> is true.\<close>

definition js_ge :: "jsval \<Rightarrow> jsval \<Rightarrow> js_error + bool" where
  "js_ge a b = (case IsLessThan a b of Inl e \<Rightarrow> Inl e | Inr r \<Rightarrow> Inr (r = Some False))"

definition js_gt :: "jsval \<Rightarrow> jsval \<Rightarrow> js_error + bool" where
  "js_gt a b = (case IsLessThan b a of Inl e \<Rightarrow> Inl e | Inr r \<Rightarrow> Inr (r = Some True))"

text \<open>
  \<open>!a\<close> and \<open>a && b\<close> on tests that may throw: \<open>b\<close> is evaluated only if \<open>a\<close> is true.
\<close>

definition js_not :: "js_error + bool \<Rightarrow> js_error + bool" where
  "js_not a = (case a of Inl e \<Rightarrow> Inl e | Inr x \<Rightarrow> Inr (\<not> x))"

definition js_and :: "js_error + bool \<Rightarrow> js_error + bool \<Rightarrow> js_error + bool" where
  "js_and a b = (case a of Inl e \<Rightarrow> Inl e | Inr x \<Rightarrow> if x then b else Inr False)"

fun typeof :: "jsval \<Rightarrow> string" where
  "typeof JUndefined = ''undefined''"
| "typeof JNull = ''object''"
| "typeof (JBool b) = ''boolean''"
| "typeof (JNum n) = ''number''"
| "typeof (JStr s) = ''string''"
| "typeof (JArr xs) = ''object''"
| "typeof (JObj ms) = ''object''"

text \<open>\<open>ToBoolean\<close>, the test of \<open>if (v)\<close> and \<open>!v\<close>.\<close>

fun truthy :: "jsval \<Rightarrow> bool" where
  "truthy JUndefined = False"
| "truthy JNull = False"
| "truthy (JBool b) = b"
| "truthy (JNum n) = (n \<noteq> NaN \<and> n \<noteq> Fin 0)"
| "truthy (JStr s) = (s \<noteq> [])"
| "truthy (JArr xs) = True"
| "truthy (JObj ms) = True"

text \<open>
  Reading the property \<open>name\<close> of \<open>v\<close>, for the names that the program reads: \<open>adSegments\<close>,
  \<open>start\<close>, \<open>end\<close>, \<open>text\<close>, \<open>videoUrl\<close>, \<open>offset\<close> and \<open>length\<close>. An object has its own
  properties, an array and a string have a \<open>length\<close>, every other read is \<open>undefined\<close>, and
  reading a property of \<open>null\<close> or \<open>undefined\<close> throws.
\<close>

fun get_prop :: "jsval \<Rightarrow> jsstring \<Rightarrow> js_error + jsval" where
  "get_prop JUndefined name = Inl TypeError"
| "get_prop JNull name = Inl TypeError"
| "get_prop (JObj ms) name = Inr (case map_of ms name of None \<Rightarrow> JUndefined | Some v \<Rightarrow> v)"
| "get_prop (JArr xs) name =
     Inr (if name = str ''length'' then JNum (Fin (of_nat (length xs))) else JUndefined)"
| "get_prop (JStr s) name =
     Inr (if name = str ''length'' then JNum (Fin (of_nat (length s))) else JUndefined)"
| "get_prop v name = Inr JUndefined"

text \<open>
  The assignment \<open>v.name = x\<close>. The program is a module, so its code is strict and an
  assignment to a property of a primitive value throws. The program assigns to objects only.
\<close>

fun set_prop :: "jsval \<Rightarrow> jsstring \<Rightarrow> jsval \<Rightarrow> js_error + jsval" where
  "set_prop (JObj ms) name x = Inr (JObj (CreateDataProperty ms name x))"
| "set_prop v name x = Inl TypeError"

fun Array_isArray :: "jsval \<Rightarrow> bool" where
  "Array_isArray (JArr xs) = True"
| "Array_isArray v = False"

section \<open>JSON.stringify\<close>










section \<open>The response sanitizer\<close>

definition empty_result :: jsval where
  "empty_result = JObj [(str ''adSegments'', JArr [])]"

text \<open>
  \<open>cleanText\<close>: the text trimmed, then without a code fence at its start and at its end.
\<close>

definition cleanText :: "jsstring \<Rightarrow> jsstring" where
  "cleanText text =
     replace_trailing (str ''```'')
       (replace_leading (str ''```'')
         (replace_leading (str ''```json'') (String_trim text)))"

text \<open>
  \<open>jsonStr\<close> after its five replacements: the \<open>ms\<close> behind the number of a \<open>start\<close> and of
  an \<open>end\<close>, then the three entities.
\<close>

definition jsonStr :: "jsstring \<Rightarrow> jsstring" where
  "jsonStr m =
     replace_all (str ''&amp;'') (str ''&'')
       (replace_all (str ''&amp;quot;'') (str ''\"'')
         (replace_all (str ''&amp;#39;'') [0x27]
           (replace_ms (str ''\"end\":'')
             (replace_ms (str ''\"start\":'') m))))"

text \<open>
  \<open>if (typeof segment.name === 'string') segment.name = parseFloat(segment.name)\<close>, as the
  segment after the statement.
\<close>

definition coerce_field :: "jsstring \<Rightarrow> jsval \<Rightarrow> js_error + jsval" where
  "coerce_field name segment =
     (case get_prop segment name of
        Inl e \<Rightarrow> Inl e
      | Inr v \<Rightarrow>
          (case v of
             JStr s \<Rightarrow> set_prop segment name (JNum (parseFloat s))
           | _ \<Rightarrow> Inr segment))"

text \<open>
  The test of a segment. Its conjuncts are evaluated from the left as long as they are true,
  and the conversions of \<open>isNaN\<close> and of the comparisons may throw.
\<close>

definition isValid :: "jsval \<Rightarrow> js_error + bool" where
  "isValid segment =
     (case get_prop segment (str ''start'') of
        Inl e \<Rightarrow> Inl e
      | Inr a \<Rightarrow>
          (case get_prop segment (str ''end'') of
             Inl e \<Rightarrow> Inl e
           | Inr b \<Rightarrow>
               (case get_prop segment (str ''text'') of
                  Inl e \<Rightarrow> Inl e
                | Inr t \<Rightarrow>
                    js_and (js_not (isNaN a))
                      (js_and (js_not (isNaN b))
                        (js_and (Inr (typeof t = ''string''))
                          (js_and (js_ge a (JNum (Fin 0))) (js_gt b a)))))))"

text \<open>
  The callback of the filter: the segment as the callback leaves it, and what it returns.
\<close>

definition segment_callback :: "jsval \<Rightarrow> js_error + (jsval \<times> bool)" where
  "segment_callback segment =
     (case coerce_field (str ''start'') segment of
        Inl e \<Rightarrow> Inl e
      | Inr s1 \<Rightarrow>
          (case coerce_field (str ''end'') s1 of
             Inl e \<Rightarrow> Inl e
           | Inr s2 \<Rightarrow>
               (case isValid s2 of
                  Inl e \<Rightarrow> Inl e
                | Inr ok \<Rightarrow> Inr (s2, ok))))"

text \<open>
  \<open>Array.prototype.filter\<close> with a callback that changes its argument and may throw: the
  elements are visited in order, an element is kept when the callback returns true, and the
  first exception ends the loop.
\<close>

fun Array_filter :: "('a \<Rightarrow> js_error + ('a \<times> bool)) \<Rightarrow> 'a list \<Rightarrow> js_error + 'a list" where
  "Array_filter f [] = Inr []"
| "Array_filter f (x # xs) =
     (case f x of
        Inl e \<Rightarrow> Inl e
      | Inr (y, keep) \<Rightarrow>
          (case Array_filter f xs of
             Inl e \<Rightarrow> Inl e
           | Inr ys \<Rightarrow> Inr (if keep then y # ys else ys)))"

text \<open>The statements behind \<open>JSON.parse\<close>: the check of the structure and the filter.\<close>

definition validate :: "jsval \<Rightarrow> js_error + jsval" where
  "validate parsed =
     (case get_prop parsed (str ''adSegments'') of
        Inl e \<Rightarrow> Inl e
      | Inr a \<Rightarrow>
          (case a of
             JArr segments \<Rightarrow>
               (case Array_filter segment_callback segments of
                  Inl e \<Rightarrow> Inl e
                | Inr kept \<Rightarrow> set_prop parsed (str ''adSegments'') (JArr kept))
           | _ \<Rightarrow> Inr empty_result))"

text \<open>
  The body of the \<open>try\<close> block. \<open>text.trim()\<close> throws a \<open>TypeError\<close> unless \<open>text\<close> is a
  string.
\<close>

definition extractJSON_try :: "jsval \<Rightarrow> js_error + jsval" where
  "extractJSON_try text =
     (case text of
        JStr t \<Rightarrow>
          (case match_braces (cleanText t) of
             None \<Rightarrow> Inr empty_result
           | Some jsonMatch \<Rightarrow>
               (case JSON_parse (jsonStr jsonMatch) of
                  Inl e \<Rightarrow> Inl e
                | Inr parsed \<Rightarrow> validate parsed))
      | _ \<Rightarrow> Inl TypeError)"

text \<open>\<open>extractJSON\<close>: the \<open>catch\<close> block returns the empty result for every exception.\<close>

definition extractJSON :: "jsval \<Rightarrow> js_error + jsval" where
  "extractJSON text =
     (case extractJSON_try text of
        Inl error \<Rightarrow> Inr empty_result
      | Inr result \<Rightarrow> Inr result)"

section \<open>The request handler\<close>

text \<open>
  A response is the status code and the value given to \<open>res.json\<close>. The three error
  responses of the handler have the same shape.
\<close>

record response =
  status :: nat
  json :: jsval

definition error_response :: "nat \<Rightarrow> string \<Rightarrow> response" where
  "error_response code message =
     \<lparr>status = code,
      json = JObj [(str ''error'', JStr (str message)),
                   (str ''transcript'', JArr []),
                   (str ''adSegments'', JArr [])]\<rparr>"

text \<open>
  What the program calls and does not define: the \<open>URL\<close> constructor of the platform, the
  transcript library and the generative model. \<open>new_URL\<close> is \<open>None\<close> where the constructor
  throws; of a URL object the program reads \<open>searchParams\<close> only, the list of the names and
  values of the query. A call of the other two returns a value or throws.
\<close>

record url =
  searchParams :: "(jsstring \<times> jsstring) list"

record collaborators =
  new_URL :: "jsstring \<Rightarrow> url option"
  fetchTranscript :: "jsval \<Rightarrow> js_error + jsval"
  generateContent :: "jsstring \<Rightarrow> js_error + jsval"

text \<open>
  \<open>getVideoId\<close>: the first value of the parameter \<open>v\<close>, \<open>null\<close> without such a parameter,
  and \<open>null\<close> from the \<open>catch\<close> block when the constructor throws. The constructor converts
  its argument to a string first.
\<close>

definition getVideoId :: "collaborators \<Rightarrow> jsval \<Rightarrow> jsval" where
  "getVideoId C url =
     (case ToString url of
        Inl error \<Rightarrow> JNull
      | Inr s \<Rightarrow>
          (case new_URL C s of
             None \<Rightarrow> JNull
           | Some urlObj \<Rightarrow>
               (case map_of (searchParams urlObj) (str ''v'') of
                  None \<Rightarrow> JNull
                | Some v \<Rightarrow> JStr v)))"

text \<open>
  A part of the handler throws, returns after it has sent a response, or goes on with a
  value.
\<close>

datatype 'a step = Throw js_error | Return response | Next 'a

fun and_then :: "'a step \<Rightarrow> ('a \<Rightarrow> 'b step) \<Rightarrow> 'b step" where
  "and_then (Throw e) f = Throw e"
| "and_then (Return r) f = Return r"
| "and_then (Next x) f = f x"

text \<open>\<open>const { videoUrl } = req.body; if (!videoUrl) return \<dots>\<close>\<close>

definition check_videoUrl :: "jsval \<Rightarrow> jsval step" where
  "check_videoUrl body =
     (case get_prop body (str ''videoUrl'') of
        Inl e \<Rightarrow> Throw e
      | Inr videoUrl \<Rightarrow>
          if \<not> truthy videoUrl then Return (error_response 400 ''Video URL is required'')
          else Next videoUrl)"

text \<open>\<open>const videoId = getVideoId(videoUrl); if (!videoId) return \<dots>\<close>\<close>

definition check_videoId :: "collaborators \<Rightarrow> jsval \<Rightarrow> jsval step" where
  "check_videoId C videoUrl =
     (if \<not> truthy (getVideoId C videoUrl) then Return (error_response 400 ''Invalid YouTube URL'')
      else Next (getVideoId C videoUrl))"

text \<open>The fetch of the transcript, with its own \<open>try\<close> block, and the test of the result.\<close>

definition check_transcript :: "collaborators \<Rightarrow> jsval \<Rightarrow> jsval step" where
  "check_transcript C videoId =
     (case fetchTranscript C videoId of
        Inl e \<Rightarrow>
          Return (error_response 404
            ''Could not fetch video transcript. The video might not have captions available.'')
      | Inr transcript \<Rightarrow>
          if \<not> truthy transcript \<or> get_prop transcript (str ''length'') = Inr (JNum (Fin 0))
          then Return (error_response 404 ''No transcript available for this video'')
          else Next transcript)"

text \<open>\<open>transcript.map(t => `[${t.offset}s]: ${t.text}`).join('\n')\<close>\<close>

definition transcript_line :: "jsval \<Rightarrow> js_error + jsstring" where
  "transcript_line t =
     (case get_prop t (str ''offset'') of
        Inl e \<Rightarrow> Inl e
      | Inr offset \<Rightarrow>
          (case get_prop t (str ''text'') of
             Inl e \<Rightarrow> Inl e
           | Inr text \<Rightarrow>
               (case ToString offset of
                  Inl e \<Rightarrow> Inl e
                | Inr o_text \<Rightarrow>
                    (case ToString text of
                       Inl e \<Rightarrow> Inl e
                     | Inr t_text \<Rightarrow> Inr (str ''['' @ o_text @ str ''s]: '' @ t_text)))))"

definition transcriptText :: "jsval \<Rightarrow> js_error + jsstring" where
  "transcriptText transcript =
     (case transcript of
        JArr ts \<Rightarrow>
          (case Array_map transcript_line ts of
             Inl e \<Rightarrow> Inl e
           | Inr ls \<Rightarrow> Inr (Array_join [0xA] ls))
      | _ \<Rightarrow> Inl TypeError)"

definition prompt_lines :: "string list" where
  "prompt_lines =
    [''You are an AI trained to analyze YouTube video transcripts and identify sponsored segments or advertisements.'',
     '''',
     ''Task: Analyze the following transcript and identify any sponsored segments or advertisements.'',
     '''',
     ''Instructions:'',
     ''1. Look for phrases like:'',
     ''   - \"this video is sponsored by\"'',
     ''   - \"thanks to our sponsor\"'',
     ''   - \"special thanks to\"'',
     ''   - \"check out\"'',
     ''   - \"use code\"'',
     ''   - \"discount code\"'',
     ''   - \"affiliate link\"'',
     ''2. For each ad segment found, note:'',
     ''   - The start timestamp (as a number in seconds, without \"s\" suffix)'',
     ''   - The end timestamp (as a number in seconds, without \"s\" suffix)'',
     ''   - The relevant text mentioning the sponsorship'',
     '''',
     ''Format your response as ONLY a JSON object with this exact structure:'',
     ''{'',
     ''  \"adSegments\": ['',
     ''    {'',
     ''      \"start\": 295.32,    // seconds as a number, no \"s\" suffix'',
     ''      \"end\": 359.16,      // seconds as a number, no \"s\" suffix'',
     ''      \"text\": \"string\"    // the sponsorship text'',
     ''    }'',
     ''  ]'',
     ''}'',
     '''',
     ''Do not include any other text in your response, only the JSON object.'',
     ''Do not add \"s\" suffix to timestamps - they should be plain numbers.'',
     '''',
     ''Transcript:'']"

definition prompt :: "jsstring \<Rightarrow> jsstring" where
  "prompt text = Array_join [0xA] (map str prompt_lines @ [text])"

text \<open>The rest of the handler: the prompt, the model, the sanitizer and the response.\<close>

definition analyze :: "collaborators \<Rightarrow> jsval \<Rightarrow> response step" where
  "analyze C transcript =
     (case transcriptText transcript of
        Inl e \<Rightarrow> Throw e
      | Inr text \<Rightarrow>
          (case generateContent C (prompt text) of
             Inl e \<Rightarrow> Throw e
           | Inr analysisText \<Rightarrow>
               (case extractJSON analysisText of
                  Inl e \<Rightarrow> Throw e
                | Inr analysis \<Rightarrow>
                    (case get_prop analysis (str ''adSegments'') of
                       Inl e \<Rightarrow> Throw e
                     | Inr adSegments \<Rightarrow>
                         Return \<lparr>status = 200,
                                 json = JObj [(str ''transcript'', transcript),
                                              (str ''adSegments'', adSegments)]\<rparr>))))"

definition analyze_video_try :: "collaborators \<Rightarrow> jsval \<Rightarrow> response step" where
  "analyze_video_try C body =
     and_then (check_videoUrl body) (\<lambda>videoUrl.
     and_then (check_videoId C videoUrl) (\<lambda>videoId.
     and_then (check_transcript C videoId) (\<lambda>transcript.
     analyze C transcript)))"

text \<open>
  The handler of \<open>POST /analyze-video\<close> for the request body \<open>body\<close>: the outer \<open>catch\<close>
  block answers every exception with the status 500.
\<close>

definition analyze_video :: "collaborators \<Rightarrow> jsval \<Rightarrow> response" where
  "analyze_video C body =
     (case analyze_video_try C body of
        Throw e \<Rightarrow> error_response 500 ''An unexpected error occurred while analyzing the video''
      | Return r \<Rightarrow> r
      | Next r \<Rightarrow> r)"

section \<open>Notions of the specification\<close>

text \<open>
  The value of a property that is read without an exception: \<open>undefined\<close> where nothing can
  be read.
\<close>

definition field :: "jsval \<Rightarrow> jsstring \<Rightarrow> jsval" where
  "field v name = (case get_prop v name of Inl e \<Rightarrow> JUndefined | Inr x \<Rightarrow> x)"

text \<open>
  The coercion of the specification: a \<open>start\<close> or an \<open>end\<close> that is a string becomes the
  floating-point number it starts with, or \<open>NaN\<close>.
\<close>

definition to_float :: "jsval \<Rightarrow> jsval" where
  "to_float v = (case v of JStr s \<Rightarrow> JNum (parseFloat s) | _ \<Rightarrow> v)"

definition coerce_member :: "jsstring \<Rightarrow> (jsstring \<times> jsval) list \<Rightarrow> (jsstring \<times> jsval) list" where
  "coerce_member name ms =
     (case map_of ms name of
        Some (JStr s) \<Rightarrow> AList.update name (JNum (parseFloat s)) ms
      | _ \<Rightarrow> ms)"

fun coerced :: "jsval \<Rightarrow> jsval" where
  "coerced (JObj ms) = JObj (coerce_member (str ''end'') (coerce_member (str ''start'') ms))"
| "coerced v = v"

text \<open>
  The number and the text that the language converts a value to, for the values whose
  conversion does not throw.
\<close>

definition number_of :: "jsval \<Rightarrow> jsnum" where
  "number_of v = (case ToNumber v of Inl e \<Rightarrow> NaN | Inr n \<Rightarrow> n)"

definition text_of :: "jsval \<Rightarrow> jsstring" where
  "text_of v = (case ToString v of Inl e \<Rightarrow> [] | Inr s \<Rightarrow> s)"

text \<open>The values that a comparison takes as a string: strings, arrays and objects.\<close>

fun text_like :: "jsval \<Rightarrow> bool" where
  "text_like (JStr s) = True"
| "text_like (JArr xs) = True"
| "text_like (JObj ms) = True"
| "text_like v = False"

text \<open>
  The validity of an element in the words of the specification: \<open>start\<close> is not \<open>NaN\<close>,
  \<open>end\<close> is not \<open>NaN\<close>, \<open>text\<close> is a string, \<open>start \<ge> 0\<close> and \<open>end > start\<close>. A \<open>start\<close> or
  an \<open>end\<close> that is not a number counts as the number that the language converts it to; two
  arrays are compared as the language compares them, by their texts.
\<close>

definition element_valid :: "jsval \<Rightarrow> bool" where
  "element_valid segment \<longleftrightarrow>
     number_of (field segment (str ''start'')) \<noteq> NaN \<and>
     number_of (field segment (str ''end'')) \<noteq> NaN \<and>
     typeof (field segment (str ''text'')) = ''string'' \<and>
     num_less (number_of (field segment (str ''start''))) (Fin 0) = Some False \<and>
     (if text_like (field segment (str ''start'')) \<and> text_like (field segment (str ''end''))
      then string_less (text_of (field segment (str ''start'')))
             (text_of (field segment (str ''end'')))
      else num_less (number_of (field segment (str ''start'')))
             (number_of (field segment (str ''end''))) = Some True)"

text \<open>
  The values whose conversion to a number or to a string throws: an object with a property
  \<open>toString\<close> of its own, and an array that holds such a value.
\<close>

fun holds_toString :: "jsval \<Rightarrow> bool" where
  "holds_toString (JObj ms) = (map_of ms (str ''toString'') \<noteq> None)"
| "holds_toString (JArr xs) = list_ex holds_toString xs"
| "holds_toString v = False"

text \<open>
  The elements at which the test throws: the conversion of \<open>start\<close> throws, or \<open>start\<close> is
  a number and the conversion of \<open>end\<close> throws.
\<close>

definition test_throws :: "jsval \<Rightarrow> bool" where
  "test_throws segment \<longleftrightarrow>
     holds_toString (field segment (str ''start'')) \<or>
     (number_of (field segment (str ''start'')) \<noteq> NaN \<and>
      holds_toString (field segment (str ''end'')))"

text \<open>An object of the language that is not \<open>null\<close>: an object or an array.\<close>

fun isObject :: "jsval \<Rightarrow> bool" where
  "isObject (JObj ms) = True"
| "isObject (JArr xs) = True"
| "isObject v = False"

text \<open>The elements that are a number, a string, a boolean or an array.\<close>

fun primitive_or_array :: "jsval \<Rightarrow> bool" where
  "primitive_or_array (JNum n) = True"
| "primitive_or_array (JStr s) = True"
| "primitive_or_array (JBool b) = True"
| "primitive_or_array (JArr xs) = True"
| "primitive_or_array v = False"

text \<open>
  The invariant of an \<open>AdSegment\<close> in the data model of the specification:
  \<open>start \<ge> 0\<close>, \<open>end > start\<close>, and \<open>text\<close> is a non-empty string.
\<close>

definition AdSegment_invariant :: "jsval \<Rightarrow> bool" where
  "AdSegment_invariant segment \<longleftrightarrow>
     js_ge (field segment (str ''start'')) (JNum (Fin 0)) = Inr True \<and>
     js_gt (field segment (str ''end'')) (field segment (str ''start'')) = Inr True \<and>
     (case field segment (str ''text'') of JStr t \<Rightarrow> t \<noteq> [] | _ \<Rightarrow> False)"

text \<open>
  An \<open>AdSegment\<close> of the data model, \<open>{ start: number, end: number, text: string }\<close> with
  the invariant, and an \<open>AnalysisResult\<close>, \<open>{ adSegments: sequence of AdSegment }\<close>.
\<close>

definition AdSegment :: "jsval \<Rightarrow> bool" where
  "AdSegment segment \<longleftrightarrow>
     (case segment of JObj ms \<Rightarrow> True | _ \<Rightarrow> False) \<and>
     typeof (field segment (str ''start'')) = ''number'' \<and>
     typeof (field segment (str ''end'')) = ''number'' \<and>
     AdSegment_invariant segment"

fun AnalysisResult :: "jsval \<Rightarrow> bool" where
  "AnalysisResult (JObj ms) =
     (case map_of ms (str ''adSegments'') of
        Some (JArr segments) \<Rightarrow> list_all AdSegment segments
      | _ \<Rightarrow> False)"
| "AnalysisResult v = False"

text \<open>The segments of a result of the sanitizer.\<close>

definition segments_of :: "js_error + jsval \<Rightarrow> jsval list" where
  "segments_of r =
     (case r of
        Inl e \<Rightarrow> []
      | Inr v \<Rightarrow> (case field v (str ''adSegments'') of JArr segments \<Rightarrow> segments | _ \<Rightarrow> []))"




definition digits :: "jsstring \<Rightarrow> bool" where
  "digits d \<longleftrightarrow> list_all isDigit d"

definition white :: "jsstring \<Rightarrow> bool" where
  "white w \<longleftrightarrow> list_all isWhiteSpace w"

text \<open>The strings that \<open>\d+\.?\d*\<close> matches.\<close>

definition number_text :: "jsstring \<Rightarrow> bool" where
  "number_text g \<longleftrightarrow>
     takeWhile isDigit g \<noteq> [] \<and>
     (dropWhile isDigit g = [] \<or>
      (hd (dropWhile isDigit g) = 0x2E \<and> list_all isDigit (tl (dropWhile isDigit g))))"



text \<open>
  Collaborators for the examples: a constructor that accepts four addresses and gives the
  query of each, a transcript library that fails for the video \<open>abc\<close> and has no lines for
  every other video, and a model that fails.
\<close>

definition example_services :: collaborators where
  "example_services =
     \<lparr>new_URL = (\<lambda>s.
        if s = str ''https://www.youtube.com/watch?v=abc''
        then Some \<lparr>searchParams = [(str ''v'', str ''abc'')]\<rparr>
        else if s = str ''https://www.youtube.com/watch?v=def&t=1''
        then Some \<lparr>searchParams = [(str ''v'', str ''def''), (str ''t'', str ''1'')]\<rparr>
        else if s = str ''https://www.youtube.com/watch?v=''
        then Some \<lparr>searchParams = [(str ''v'', [])]\<rparr>
        else if s = str ''https://www.youtube.com/''
        then Some \<lparr>searchParams = []\<rparr>
        else None),
      fetchTranscript = (\<lambda>videoId.
        if videoId = JStr (str ''abc'') then Inl ExternalError else Inr (JArr [])),
      generateContent = (\<lambda>p. Inl ExternalError)\<rparr>"

section \<open>Properties\<close>

lemma CreateDataProperty_update:
  "map_of ms k \<noteq> None \<Longrightarrow> CreateDataProperty ms k v = AList.update k v ms"
  by (simp add: CreateDataProperty_def)

lemma coerce_field_obj:
  "coerce_field name (JObj ms) = Inr (JObj (coerce_member name ms))"
  by (auto simp: coerce_field_def coerce_member_def CreateDataProperty_update
      split: option.splits jsval.splits)

lemma coerce_field_other:
  "v \<noteq> JNull \<Longrightarrow> v \<noteq> JUndefined \<Longrightarrow> \<forall>ms. v \<noteq> JObj ms \<Longrightarrow> coerce_field name v = Inr v"
  by (cases v) (auto simp: coerce_field_def)

text \<open>The conversions throw for the values that hold a \<open>toString\<close>, and for no other.\<close>

lemma Array_map_Inl:
  "Array_map f xs = Inl e \<Longrightarrow> \<exists>x \<in> set xs. f x = Inl e"
  by (induction xs) (auto split: sum.splits)

lemma Array_map_Inr:
  "Array_map f xs = Inr ys \<Longrightarrow> x \<in> set xs \<Longrightarrow> \<exists>y. f x = Inr y"
  by (induction xs arbitrary: ys) (auto split: sum.splits)

lemma Array_map_total:
  "(\<And>x. x \<in> set xs \<Longrightarrow> \<exists>y. f x = Inr y) \<Longrightarrow> \<exists>ys. Array_map f xs = Inr ys"
proof (induction xs)
  case Nil
  then show ?case by simp
next
  case (Cons x xs)
  then obtain y ys where "f x = Inr y" "Array_map f xs = Inr ys"
    by (metis list.set_intros(1) list.set_intros(2))
  then show ?case by simp
qed

lemma ToString_throws: "(\<exists>e. ToString v = Inl e) \<longleftrightarrow> holds_toString v"
proof (induction v rule: ToString.induct)
  case (6 xs)
  let ?f = "\<lambda>x. if x = JNull \<or> x = JUndefined then Inr [] else ToString x"
  have f: "(\<exists>e. ?f x = Inl e) \<longleftrightarrow> holds_toString x" if "x \<in> set xs" for x
    using 6[OF that] by auto
  show ?case
  proof
    assume "\<exists>e. ToString (JArr xs) = Inl e"
    then obtain e where "Array_map ?f xs = Inl e"
      by (auto split: sum.splits)
    from Array_map_Inl[OF this] f show "holds_toString (JArr xs)"
      by (auto simp: list_ex_iff)
  next
    assume "holds_toString (JArr xs)"
    then obtain x where x: "x \<in> set xs" "holds_toString x"
      by (auto simp: list_ex_iff)
    with f obtain e where e: "?f x = Inl e" by blast
    have "\<exists>e. Array_map ?f xs = Inl e"
    proof (cases "Array_map ?f xs")
      case (Inr ys)
      from Array_map_Inr[OF this x(1)] e show ?thesis by simp
    qed blast
    then show "\<exists>e. ToString (JArr xs) = Inl e"
      by auto
  qed
qed auto

lemma ToString_error: "ToString v = Inl e \<Longrightarrow> e = TypeError"
proof (induction v rule: ToString.induct)
  case (6 xs)
  let ?f = "\<lambda>x. if x = JNull \<or> x = JUndefined then Inr [] else ToString x"
  from 6(2) have "Array_map ?f xs = Inl e"
    by (auto split: sum.splits)
  from Array_map_Inl[OF this] obtain x where "x \<in> set xs" "?f x = Inl e" ..
  with 6(1)[of x] show ?case
    by (auto split: if_splits)
qed (auto split: if_splits)

lemma ToString_text_of: "\<not> holds_toString v \<Longrightarrow> ToString v = Inr (text_of v)"
  using ToString_throws[of v] by (cases "ToString v") (auto simp: text_of_def)

lemma ToString_TypeError: "holds_toString v \<Longrightarrow> ToString v = Inl TypeError"
  using ToString_throws[of v] ToString_error[of v] by auto

lemma ToNumber_TypeError: "holds_toString v \<Longrightarrow> ToNumber v = Inl TypeError"
  using ToString_TypeError[of v] by (cases v) (simp_all del: ToString.simps)

lemma ToNumber_number_of: "\<not> holds_toString v \<Longrightarrow> ToNumber v = Inr (number_of v)"
  using ToString_text_of[of v]
  by (cases v) (simp_all add: number_of_def del: ToString.simps holds_toString.simps)


lemma isNaN_eq:
  "isNaN v = (if holds_toString v then Inl TypeError else Inr (number_of v = NaN))"
  by (simp add: isNaN_def ToNumber_TypeError ToNumber_number_of)

lemma ToPrimitive_eq:
  "\<not> holds_toString v \<Longrightarrow>
   ToPrimitive v = Inr (case v of JArr xs \<Rightarrow> JStr (text_of v) | JObj ms \<Rightarrow> JStr (text_of v) | _ \<Rightarrow> v)"
  using ToString_text_of[of v]
  by (cases v) (simp_all del: ToString.simps holds_toString.simps)

lemma IsLessThan_eq:
  assumes "\<not> holds_toString a" and "\<not> holds_toString b"
  shows "IsLessThan a b =
     Inr (if text_like a \<and> text_like b then Some (string_less (text_of a) (text_of b))
          else num_less (number_of a) (number_of b))"
proof -
  have n: "number_of (JStr (text_of v)) = number_of v" if "v = JArr xs \<or> v = JObj ms"
    "\<not> holds_toString v" for v xs ms
    using that ToString_text_of[OF that(2)]
    by (auto simp: number_of_def simp del: ToString.simps holds_toString.simps)
  have t: "text_of (JStr s) = s" for s
    by (simp add: text_of_def)
  show ?thesis
    unfolding IsLessThan_def ToPrimitive_eq[OF assms(1)] ToPrimitive_eq[OF assms(2)]
    using n[OF _ assms(1)] n[OF _ assms(2)]
    by (cases a; cases b) (simp_all add: t number_of_def del: ToNumber.simps(6,7))
qed

lemma isValid_eq:
  assumes "v \<noteq> JNull" and "v \<noteq> JUndefined"
  shows "isValid v = (if test_throws v then Inl TypeError else Inr (element_valid v))"
proof -
  define a where "a = field v (str ''start'')"
  define b where "b = field v (str ''end'')"
  define t where "t = field v (str ''text'')"
  from assms have g: "get_prop v (str ''start'') = Inr a" "get_prop v (str ''end'') = Inr b"
    "get_prop v (str ''text'') = Inr t"
    by (cases v; simp add: a_def b_def t_def field_def)+
  have z: "\<not> holds_toString (JNum (Fin 0))" "\<not> text_like (JNum (Fin 0))"
    "number_of (JNum (Fin 0)) = Fin 0"
    by (simp_all add: number_of_def)
  have v: "isValid v =
      js_and (js_not (isNaN a))
        (js_and (js_not (isNaN b))
          (js_and (Inr (typeof t = ''string''))
            (js_and (js_ge a (JNum (Fin 0))) (js_gt b a))))"
    by (simp add: isValid_def g)
  show ?thesis
  proof (cases "holds_toString a")
    case True
    then show ?thesis
      by (simp add: v isNaN_eq js_and_def js_not_def test_throws_def a_def[symmetric])
  next
    case a: False
    show ?thesis
    proof (cases "number_of a = NaN")
      case True
      with a show ?thesis
        by (simp add: v isNaN_eq js_and_def js_not_def test_throws_def element_valid_def
            a_def[symmetric])
    next
      case na: False
      show ?thesis
      proof (cases "holds_toString b")
        case True
        with a na show ?thesis
          by (simp add: v isNaN_eq js_and_def js_not_def test_throws_def a_def[symmetric]
              b_def[symmetric])
      next
        case b: False
        with a na show ?thesis
          unfolding v test_throws_def element_valid_def a_def[symmetric] b_def[symmetric]
            t_def[symmetric]
          by (simp add: isNaN_eq js_and_def js_not_def js_ge_def js_gt_def IsLessThan_eq z)
      qed
    qed
  qed
qed

lemma segment_callback_eq:
  assumes "v \<noteq> JNull" and "v \<noteq> JUndefined"
  shows "segment_callback v =
     (if test_throws (coerced v) then Inl TypeError
      else Inr (coerced v, element_valid (coerced v)))"
proof (cases "\<exists>ms. v = JObj ms")
  case True
  then obtain ms where "v = JObj ms" ..
  then show ?thesis
    by (simp add: segment_callback_def coerce_field_obj isValid_eq)
next
  case False
  with assms have "coerce_field (str ''start'') v = Inr v" "coerce_field (str ''end'') v = Inr v"
    by (simp_all add: coerce_field_other)
  moreover from False have "coerced v = v"
    by (cases v) auto
  ultimately show ?thesis using assms
    by (simp add: segment_callback_def isValid_eq)
qed

lemma segment_callback_null: "segment_callback JNull = Inl TypeError"
  by (simp add: segment_callback_def coerce_field_def)

lemma segment_callback_error:
  assumes "segment_callback v = Inl e"
  shows "e = TypeError"
proof (cases "v = JNull \<or> v = JUndefined")
  case True
  then have "segment_callback v = Inl TypeError"
    by (auto simp: segment_callback_def coerce_field_def)
  with assms show ?thesis by simp
next
  case False
  with segment_callback_eq[of v] assms show ?thesis by (simp split: if_splits)
qed

lemma Array_filter_total:
  assumes "\<forall>x \<in> set xs. f x = Inr (g x, p (g x))"
  shows "Array_filter f xs = Inr (filter p (map g xs))"
  using assms by (induction xs) auto

text \<open>The elements at which the callback of the filter throws.\<close>

lemma segment_callback_throws:
  "segment_callback v = Inl TypeError \<longleftrightarrow>
     v = JNull \<or> v = JUndefined \<or> test_throws (coerced v)"
proof (cases "v = JNull \<or> v = JUndefined")
  case True
  then show ?thesis
    by (auto simp: segment_callback_def coerce_field_def)
next
  case False
  then show ?thesis
    by (simp add: segment_callback_eq)
qed

lemma Array_filter_segments:
  assumes "\<forall>s \<in> set segments. s \<noteq> JNull \<and> s \<noteq> JUndefined \<and> \<not> test_throws (coerced s)"
  shows "Array_filter segment_callback segments = Inr (filter element_valid (map coerced segments))"
  using assms by (intro Array_filter_total) (auto simp: segment_callback_eq)

lemma Array_filter_throws:
  assumes "x \<in> set xs" and "segment_callback x = Inl TypeError"
  shows "Array_filter segment_callback xs = Inl TypeError"
  using assms
proof (induction xs)
  case Nil
  then show ?case by simp
next
  case (Cons y ys)
  show ?case
  proof (cases "segment_callback y")
    case (Inl e)
    then show ?thesis by (simp add: segment_callback_error)
  next
    case (Inr r)
    with Cons.prems have "x \<in> set ys" by auto
    with Cons have "Array_filter segment_callback ys = Inl TypeError" by simp
    with Inr show ?thesis by (simp split: prod.splits)
  qed
qed

lemma Array_filter_null:
  "JNull \<in> set xs \<Longrightarrow> Array_filter segment_callback xs = Inl TypeError"
  by (erule Array_filter_throws) (rule segment_callback_null)

lemma get_prop_array_obj:
  "get_prop v name = Inr (JArr xs) \<Longrightarrow> \<exists>ms. v = JObj ms \<and> map_of ms name = Some (JArr xs)"
  by (cases v) (auto split: option.splits if_splits)

lemma validate_objects:
  assumes "get_prop parsed (str ''adSegments'') = Inr (JArr segments)"
    and "\<forall>s \<in> set segments. s \<noteq> JNull \<and> s \<noteq> JUndefined \<and> \<not> test_throws (coerced s)"
  shows "\<exists>ms. parsed = JObj ms \<and> validate parsed =
      Inr (JObj (AList.update (str ''adSegments'')
                  (JArr (filter element_valid (map coerced segments))) ms))"
proof -
  from get_prop_array_obj[OF assms(1)] obtain ms where "parsed = JObj ms"
    "map_of ms (str ''adSegments'') = Some (JArr segments)" by blast
  with assms show ?thesis
    by (simp add: validate_def Array_filter_segments CreateDataProperty_update)
qed

lemma validate_throws:
  assumes "get_prop parsed (str ''adSegments'') = Inr (JArr segments)"
    and "x \<in> set segments" and "x = JNull \<or> x = JUndefined \<or> test_throws (coerced x)"
  shows "validate parsed = Inl TypeError"
proof -
  from assms(3) have "segment_callback x = Inl TypeError"
    unfolding segment_callback_throws .
  from Array_filter_throws[OF assms(2) this] assms(1) show ?thesis
    by (simp add: validate_def)
qed

lemma validate_null:
  assumes "get_prop parsed (str ''adSegments'') = Inr (JArr segments)" and "JNull \<in> set segments"
  shows "validate parsed = Inl TypeError"
  using assms by (simp add: validate_def Array_filter_null)

lemma extractJSON_not_string: "\<forall>t. text \<noteq> JStr t \<Longrightarrow> extractJSON text = Inr empty_result"
  by (cases "text") (auto simp: extractJSON_def extractJSON_try_def)

lemma extractJSON_no_span:
  "match_braces (cleanText t) = None \<Longrightarrow> extractJSON (JStr t) = Inr empty_result"
  by (simp add: extractJSON_def extractJSON_try_def)

lemma extractJSON_no_parse:
  "match_braces (cleanText t) = Some m \<Longrightarrow> JSON_parse (jsonStr m) = Inl e \<Longrightarrow>
   extractJSON (JStr t) = Inr empty_result"
  by (simp add: extractJSON_def extractJSON_try_def)

lemma extractJSON_parsed:
  "match_braces (cleanText t) = Some m \<Longrightarrow> JSON_parse (jsonStr m) = Inr parsed \<Longrightarrow>
   extractJSON (JStr t) = (case validate parsed of Inl e \<Rightarrow> Inr empty_result | Inr r \<Rightarrow> Inr r)"
  by (simp add: extractJSON_def extractJSON_try_def)

lemma extractJSON_cases:
  obtains (empty) "extractJSON text = Inr empty_result"
  | (validated) parsed r where "validate parsed = Inr r" "extractJSON text = Inr r"
proof (cases "text")
  case (JStr t)
  show ?thesis
  proof (cases "match_braces (cleanText t)")
    case None
    with JStr empty show ?thesis by (simp add: extractJSON_no_span)
  next
    case (Some m)
    show ?thesis
    proof (cases "JSON_parse (jsonStr m)")
      case (Inl e)
      with JStr Some empty show ?thesis by (simp add: extractJSON_no_parse)
    next
      case (Inr parsed)
      with JStr Some have *: "extractJSON text =
          (case validate parsed of Inl e \<Rightarrow> Inr empty_result | Inr r \<Rightarrow> Inr r)"
        by (simp add: extractJSON_parsed)
      show ?thesis
      proof (cases "validate parsed")
        case (Inl e)
        with * empty show ?thesis by simp
      next
        case r: (Inr r)
        with * validated show ?thesis by simp
      qed
    qed
  qed
qed (auto intro: empty simp: extractJSON_not_string)

lemma Array_filter_Inr:
  "Array_filter f xs = Inr ys \<Longrightarrow> x \<in> set xs \<Longrightarrow> \<exists>r. f x = Inr r"
  by (induction xs arbitrary: ys) (auto split: sum.splits prod.splits)

lemma segment_callback_Inr:
  assumes "segment_callback v = Inr r"
  shows "v \<noteq> JNull \<and> v \<noteq> JUndefined \<and> \<not> test_throws (coerced v)"
  using assms segment_callback_throws[of v] by auto

lemma Array_filter_segments_Inr:
  assumes "Array_filter segment_callback segments = Inr kept"
  shows "kept = filter element_valid (map coerced segments)"
proof -
  have "\<forall>s \<in> set segments. s \<noteq> JNull \<and> s \<noteq> JUndefined \<and> \<not> test_throws (coerced s)"
    using Array_filter_Inr[OF assms] segment_callback_Inr by blast
  from Array_filter_segments[OF this] assms show ?thesis by simp
qed

text \<open>Every result of the validation is the empty result or the parsed object with the
  filtered array.\<close>

lemma validate_cases:
  assumes "validate parsed = Inr r"
  obtains (empty) "r = empty_result"
  | (filtered) ms segments where "parsed = JObj ms"
      "map_of ms (str ''adSegments'') = Some (JArr segments)"
      "r = JObj (AList.update (str ''adSegments'')
                  (JArr (filter element_valid (map coerced segments))) ms)"
proof (cases "\<exists>segments. get_prop parsed (str ''adSegments'') = Inr (JArr segments)")
  case False
  with assms have "r = empty_result"
    by (auto simp: validate_def split: sum.splits jsval.splits)
  then show ?thesis by (rule empty)
next
  case True
  then obtain segments where g: "get_prop parsed (str ''adSegments'') = Inr (JArr segments)" ..
  from get_prop_array_obj[OF g] obtain ms where ms: "parsed = JObj ms"
    "map_of ms (str ''adSegments'') = Some (JArr segments)" by blast
  from assms g ms obtain kept where k: "Array_filter segment_callback segments = Inr kept"
    and r: "r = JObj (AList.update (str ''adSegments'') (JArr kept) ms)"
    by (auto simp: validate_def CreateDataProperty_update split: sum.splits)
  from Array_filter_segments_Inr[OF k] r ms show ?thesis
    by (intro filtered) auto
qed

lemma element_valid_object:
  assumes "element_valid v"
  shows "\<exists>ms t. v = JObj ms \<and> map_of ms (str ''text'') = Some (JStr t)"
proof -
  from assms have t: "typeof (field v (str ''text'')) = ''string''"
    by (simp add: element_valid_def)
  have ne: "str ''text'' \<noteq> str ''length''"
    by (simp add: str_def)
  from t ne obtain ms where v: "v = JObj ms"
    by (cases v) (auto simp: field_def)
  with t have "\<exists>t. map_of ms (str ''text'') = Some (JStr t)"
    by (cases "map_of ms (str ''text'')"; cases "the (map_of ms (str ''text''))")
       (auto simp: field_def)
  with v show ?thesis by blast
qed

lemma map_of_coerce_member:
  "map_of (coerce_member name ms) k =
     (if k = name then map_option to_float (map_of ms name) else map_of ms k)"
  by (auto simp: coerce_member_def to_float_def update_conv' split: option.splits jsval.splits)

lemma coerce_member_idle:
  "(\<And>s. map_of ms name \<noteq> Some (JStr s)) \<Longrightarrow> coerce_member name ms = ms"
  by (auto simp: coerce_member_def split: option.splits jsval.splits)

lemma to_float_not_string: "to_float v \<noteq> JStr s"
  by (cases v) (auto simp: to_float_def)

lemma coerced_idem: "coerced (coerced v) = coerced v"
proof (cases v)
  case (JObj ms)
  have ne: "str ''start'' \<noteq> str ''end''"
    by (simp add: str_def)
  let ?ms = "coerce_member (str ''end'') (coerce_member (str ''start'') ms)"
  have 1: "coerce_member (str ''start'') ?ms = ?ms"
    by (rule coerce_member_idle) (auto simp: map_of_coerce_member ne to_float_not_string)
  have 2: "coerce_member (str ''end'') ?ms = ?ms"
    by (rule coerce_member_idle) (auto simp: map_of_coerce_member to_float_not_string)
  from JObj 1 2 show ?thesis by simp
qed auto




lemma extractJSON_shape:
  "\<exists>ms segments. extractJSON text = Inr (JObj ms) \<and> map_of ms (str ''adSegments'') = Some (JArr segments)"
proof (cases "text" rule: extractJSON_cases)
  case empty
  then show ?thesis by (simp add: empty_result_def)
next
  case (validated parsed r)
  from validated(1) show ?thesis
    by (cases rule: validate_cases) (auto simp: validated(2) empty_result_def update_conv')
qed








lemma digit_not_white: "isDigit c \<Longrightarrow> \<not> isWhiteSpace c"
  by (auto simp: isDigit_def isWhiteSpace_def word_le_nat_alt)

lemma ms_not_digit: "\<not> isDigit 0x6D" "\<not> isDigit 0x2E"
  by (simp_all add: isDigit_def)

lemma str_ms: "str ''ms'' = [0x6D, 0x73]"
  by (simp add: str_def)

lemma number_text_iff:
  "number_text g \<longleftrightarrow>
     (\<exists>d f. g = d @ f \<and> d \<noteq> [] \<and> digits d \<and> (f = [] \<or> (\<exists>e. f = 0x2E # e \<and> digits e)))"
proof
  assume g: "number_text g"
  define d where "d = takeWhile isDigit g"
  define f where "f = dropWhile isDigit g"
  have "g = d @ f" by (simp add: d_def f_def)
  moreover from g have "d \<noteq> []" by (simp add: number_text_def d_def)
  moreover have "digits d"
    by (auto simp: digits_def list_all_iff d_def dest: set_takeWhileD)
  moreover from g have "f = [] \<or> (\<exists>e. f = 0x2E # e \<and> digits e)"
    unfolding number_text_def f_def[symmetric] digits_def
    by (cases f) auto
  ultimately show "\<exists>d f. g = d @ f \<and> d \<noteq> [] \<and> digits d \<and>
      (f = [] \<or> (\<exists>e. f = 0x2E # e \<and> digits e))"
    by blast
next
  assume "\<exists>d f. g = d @ f \<and> d \<noteq> [] \<and> digits d \<and> (f = [] \<or> (\<exists>e. f = 0x2E # e \<and> digits e))"
  then obtain d f where g: "g = d @ f" and d: "d \<noteq> []" "digits d"
    and f: "f = [] \<or> (\<exists>e. f = 0x2E # e \<and> digits e)"
    by blast
  from d(2) f have "takeWhile isDigit g = d" "dropWhile isDigit g = f"
    unfolding g by (auto simp: digits_def list_all_iff ms_not_digit)
  with d f show "number_text g"
    by (auto simp: number_text_def digits_def)
qed

lemma takeWhile_digits_ms:
  "digits d \<Longrightarrow> takeWhile isDigit (d @ str ''ms'' @ r) = d"
  "digits d \<Longrightarrow> dropWhile isDigit (d @ str ''ms'' @ r) = str ''ms'' @ r"
  by (simp_all add: digits_def list_all_iff str_ms ms_not_digit)

lemma match_ms_unit_iff:
  "match_ms_unit g s = Some (h, r) \<longleftrightarrow> h = g \<and> s = str ''ms'' @ r"
  by (auto simp: match_ms_unit_def prefix_def str_ms)

lemma match_ms_fraction_iff:
  "match_ms_fraction g s = Some (h, r) \<longleftrightarrow>
     (\<exists>f. h = g @ f \<and> s = f @ str ''ms'' @ r \<and> (f = [] \<or> (\<exists>e. f = 0x2E # e \<and> digits e)))"
proof (cases "s \<noteq> [] \<and> hd s = 0x2E")
  case True
  then obtain t where s: "s = 0x2E # t" by (cases s) auto
  have "match_ms_fraction g s = Some (h, r) \<longleftrightarrow>
      h = g @ 0x2E # takeWhile isDigit t \<and> dropWhile isDigit t = str ''ms'' @ r"
    by (simp add: match_ms_fraction_def s match_ms_unit_iff)
  also have "\<dots> \<longleftrightarrow> (\<exists>e. h = g @ 0x2E # e \<and> t = e @ str ''ms'' @ r \<and> digits e)"
  proof
    assume *: "h = g @ 0x2E # takeWhile isDigit t \<and> dropWhile isDigit t = str ''ms'' @ r"
    have "t = takeWhile isDigit t @ dropWhile isDigit t" by simp
    with * have "t = takeWhile isDigit t @ str ''ms'' @ r" by simp
    moreover have "digits (takeWhile isDigit t)"
      by (auto simp: digits_def list_all_iff dest: set_takeWhileD)
    ultimately show "\<exists>e. h = g @ 0x2E # e \<and> t = e @ str ''ms'' @ r \<and> digits e"
      using * by blast
  next
    assume "\<exists>e. h = g @ 0x2E # e \<and> t = e @ str ''ms'' @ r \<and> digits e"
    then show "h = g @ 0x2E # takeWhile isDigit t \<and> dropWhile isDigit t = str ''ms'' @ r"
      by (auto simp: takeWhile_digits_ms)
  qed
  also have "\<dots> \<longleftrightarrow> (\<exists>f. h = g @ f \<and> s = f @ str ''ms'' @ r \<and>
      (f = [] \<or> (\<exists>e. f = 0x2E # e \<and> digits e)))"
    by (auto simp: s str_ms)
  finally show ?thesis .
next
  case False
  then have "match_ms_fraction g s = match_ms_unit g s"
    by (auto simp: match_ms_fraction_def)
  then have "match_ms_fraction g s = Some (h, r) \<longleftrightarrow> h = g \<and> s = str ''ms'' @ r"
    by (simp add: match_ms_unit_iff)
  also from False have "\<dots> \<longleftrightarrow> (\<exists>f. h = g @ f \<and> s = f @ str ''ms'' @ r \<and>
      (f = [] \<or> (\<exists>e. f = 0x2E # e \<and> digits e)))"
    by auto
  finally show ?thesis .
qed

lemma takeWhile_digits_fraction:
  assumes "digits d" and "f = [] \<or> (\<exists>e. f = 0x2E # e \<and> digits e)"
  shows "takeWhile isDigit (d @ f @ str ''ms'' @ r) = d"
    and "dropWhile isDigit (d @ f @ str ''ms'' @ r) = f @ str ''ms'' @ r"
  using assms by (auto simp: digits_def list_all_iff str_ms ms_not_digit)

lemma match_ms_digits_iff:
  "match_ms_digits s = Some (h, r) \<longleftrightarrow> number_text h \<and> s = h @ str ''ms'' @ r"
proof
  assume a: "match_ms_digits s = Some (h, r)"
  define d where "d = takeWhile isDigit s"
  from a have d: "d \<noteq> []" and "match_ms_fraction d (dropWhile isDigit s) = Some (h, r)"
    by (auto simp: match_ms_digits_def d_def split: if_splits)
  then obtain f where f: "h = d @ f" "dropWhile isDigit s = f @ str ''ms'' @ r"
    "f = [] \<or> (\<exists>e. f = 0x2E # e \<and> digits e)"
    unfolding match_ms_fraction_iff by blast
  have "s = d @ dropWhile isDigit s" by (simp add: d_def)
  with f have "s = h @ str ''ms'' @ r" by simp
  moreover have "digits d"
    by (auto simp: digits_def list_all_iff d_def dest: set_takeWhileD)
  with d f have "number_text h"
    unfolding number_text_iff by blast
  ultimately show "number_text h \<and> s = h @ str ''ms'' @ r" by blast
next
  assume "number_text h \<and> s = h @ str ''ms'' @ r"
  then obtain d f where h: "h = d @ f" "d \<noteq> []" "digits d"
    "f = [] \<or> (\<exists>e. f = 0x2E # e \<and> digits e)" and s: "s = (d @ f) @ str ''ms'' @ r"
    unfolding number_text_iff by blast
  from h(3,4) have "takeWhile isDigit s = d" "dropWhile isDigit s = f @ str ''ms'' @ r"
    unfolding s by (simp_all add: takeWhile_digits_fraction)
  with h show "match_ms_digits s = Some (h, r)"
    by (auto simp: match_ms_digits_def match_ms_fraction_iff)
qed

lemma number_text_not_white:
  assumes "number_text g"
  shows "g \<noteq> [] \<and> \<not> isWhiteSpace (hd g)"
proof -
  from assms obtain d f where "g = d @ f" "d \<noteq> []" "digits d"
    unfolding number_text_iff by blast
  then obtain c d' where "g = c # d' @ f" "isDigit c"
    by (cases d) (auto simp: digits_def)
  then show ?thesis by (simp add: digit_not_white)
qed

lemma match_ms_iff:
  "match_ms k s = Some (g, r) \<longleftrightarrow>
     (\<exists>w. white w \<and> number_text g \<and> s = k @ w @ g @ str ''ms'' @ r)"
proof
  assume a: "match_ms k s = Some (g, r)"
  then obtain t where s: "s = k @ t"
    by (auto simp: match_ms_def prefix_def split: if_splits)
  with a have "match_ms_digits (dropWhile isWhiteSpace t) = Some (g, r)"
    by (simp add: match_ms_def)
  then have g: "number_text g" and "dropWhile isWhiteSpace t = g @ str ''ms'' @ r"
    unfolding match_ms_digits_iff by blast+
  moreover have "t = takeWhile isWhiteSpace t @ dropWhile isWhiteSpace t" by simp
  ultimately have "s = k @ takeWhile isWhiteSpace t @ g @ str ''ms'' @ r"
    using s by simp
  moreover have "white (takeWhile isWhiteSpace t)"
    by (auto simp: white_def list_all_iff dest: set_takeWhileD)
  ultimately show "\<exists>w. white w \<and> number_text g \<and> s = k @ w @ g @ str ''ms'' @ r"
    using g by blast
next
  assume "\<exists>w. white w \<and> number_text g \<and> s = k @ w @ g @ str ''ms'' @ r"
  then obtain w where w: "white w" and g: "number_text g" and s: "s = k @ w @ g @ str ''ms'' @ r"
    by blast
  from number_text_not_white[OF g] obtain c g' where c: "g = c # g'" "\<not> isWhiteSpace c"
    by (cases g) auto
  with w have "dropWhile isWhiteSpace (w @ g @ str ''ms'' @ r) = g @ str ''ms'' @ r"
    by (simp add: white_def list_all_iff)
  with g show "match_ms k s = Some (g, r)"
    by (simp add: match_ms_def s match_ms_digits_iff)
qed

lemma replace_ms_match:
  assumes "match_ms k s = Some (g, r)"
  shows "replace_ms k s = k @ str '' '' @ g @ replace_ms k r"
proof -
  from match_ms_shorter[OF assms] obtain c cs where "s = c # cs"
    by (cases s) auto
  with assms show ?thesis by simp
qed

lemma replace_ms_no_match:
  assumes "\<And>t. suffix t s \<Longrightarrow> match_ms k t = None"
  shows "replace_ms k s = s"
  using assms
proof (induction s)
  case Nil
  then show ?case by simp
next
  case (Cons c cs)
  have "match_ms k (c # cs) = None"
    by (rule Cons.prems) simp
  moreover have "replace_ms k cs = cs"
    by (rule Cons.IH) (simp add: Cons.prems suffix_Cons)
  ultimately show ?case by simp
qed

lemma element_valid_isObject: "element_valid s \<Longrightarrow> isObject s"
  by (auto dest: element_valid_object)

lemma segments_of_extractJSON:
  "\<exists>segments. segments_of (extractJSON v) = filter element_valid (map coerced segments)"
proof (cases v rule: extractJSON_cases)
  case empty
  then have "segments_of (extractJSON v) = filter element_valid (map coerced [])"
    by (simp add: segments_of_def field_def empty_result_def)
  then show ?thesis ..
next
  case (validated parsed r)
  from validated(1) show ?thesis
  proof (cases rule: validate_cases)
    case empty
    with validated(2) have "segments_of (extractJSON v) = filter element_valid (map coerced [])"
      by (simp add: segments_of_def field_def empty_result_def)
    then show ?thesis ..
  next
    case (filtered ms segments)
    with validated(2) have "segments_of (extractJSON v) =
        filter element_valid (map coerced segments)"
      by (simp add: segments_of_def field_def update_conv')
    then show ?thesis ..
  qed
qed

lemma segments_of_parsed:
  assumes "match_braces (cleanText t) = Some m" and "JSON_parse (jsonStr m) = Inr parsed"
    and "get_prop parsed (str ''adSegments'') = Inr (JArr segments)"
  shows "set (segments_of (extractJSON (JStr t))) \<subseteq> coerced ` set segments"
proof (cases "validate parsed")
  case (Inl e)
  with assms show ?thesis
    by (simp add: extractJSON_parsed segments_of_def field_def empty_result_def)
next
  case (Inr r)
  then show ?thesis
  proof (cases rule: validate_cases)
    case empty
    with Inr assms show ?thesis
      by (simp add: extractJSON_parsed segments_of_def field_def empty_result_def)
  next
    case (filtered ms segs)
    with assms(3) have "segs = segments" by simp
    with filtered Inr assms show ?thesis
      by (auto simp: extractJSON_parsed segments_of_def field_def update_conv')
  qed
qed

lemma element_valid_numbers:
  assumes "element_valid s" and "field s (str ''start'') = JNum a"
    and "field s (str ''end'') = JNum b"
  shows "num_less a (Fin 0) = Some False \<and> num_less a b = Some True"
  using assms by (simp add: element_valid_def number_of_def)

lemma typeof_number: "typeof x = ''number'' \<longleftrightarrow> (\<exists>n. x = JNum n)"
  by (cases x) auto

lemma AdSegment_iff:
  assumes "element_valid s"
  shows "AdSegment s \<longleftrightarrow>
     typeof (field s (str ''start'')) = ''number'' \<and>
     typeof (field s (str ''end'')) = ''number'' \<and>
     field s (str ''text'') \<noteq> JStr []"
proof (cases "typeof (field s (str ''start'')) = ''number'' \<and>
    typeof (field s (str ''end'')) = ''number''")
  case True
  then obtain a b where ab: "field s (str ''start'') = JNum a" "field s (str ''end'') = JNum b"
    unfolding typeof_number by blast
  from element_valid_object[OF assms] obtain ms t where s: "s = JObj ms"
    and t: "field s (str ''text'') = JStr t"
    by (auto simp: field_def)
  from element_valid_numbers[OF assms ab] ab t s show ?thesis
    by (simp add: AdSegment_def AdSegment_invariant_def js_ge_def js_gt_def IsLessThan_def)
next
  case False
  then show ?thesis
    by (auto simp: AdSegment_def)
qed

text \<open>An element that is a number, a string, a boolean or an array is left out alone.\<close>

lemma segment_callback_primitive:
  assumes "primitive_or_array x"
  shows "segment_callback x = Inr (x, False)"
proof -
  have ne: "str ''start'' \<noteq> str ''length''"
    by (simp add: str_def)
  from assms have x: "x \<noteq> JNull" "x \<noteq> JUndefined" "coerced x = x"
    "field x (str ''start'') = JUndefined"
    by (cases x; simp add: field_def ne)+
  then have "\<not> test_throws x" "\<not> element_valid x"
    by (simp_all add: test_throws_def element_valid_def number_of_def)
  with x show ?thesis
    by (simp add: segment_callback_eq)
qed

lemma Array_filter_dropped:
  assumes "\<And>x. p x \<Longrightarrow> f x = Inr (x, False)"
  shows "Array_filter f xs = Array_filter f (filter (\<lambda>x. \<not> p x) xs)"
  by (induction xs) (auto simp: assms split: sum.splits)







lemma replace_all_match:
  assumes "p \<noteq> []"
  shows "replace_all p r (p @ s) = r @ replace_all p r s"
proof -
  from assms obtain c cs where p: "p = c # cs" by (cases p) auto
  then show ?thesis by simp
qed

section \<open>The claims\<close>

subsection \<open>Examples\<close>

text \<open>Texts used below, and what the steps of the sanitizer make of them.\<close>

lemma ex_no_braces: "match_braces (cleanText (str ''I found no sponsors.'')) = None"
  by code_simp

lemma ex_empty_text: "match_braces (cleanText []) = None"
  by code_simp

lemma ex_bad_json:
  "match_braces (cleanText (str ''{adSegments: none}'')) = Some (str ''{adSegments: none}'') \<and>
   JSON_parse (jsonStr (str ''{adSegments: none}'')) = Inl SyntaxError"
  by code_simp

lemma ex_reversed:
  "match_braces (cleanText (str ''{\"adSegments\":[{\"start\":10,\"end\":5,\"text\":\"x\"}]}'')) =
     Some (str ''{\"adSegments\":[{\"start\":10,\"end\":5,\"text\":\"x\"}]}'') \<and>
   JSON_parse (jsonStr (str ''{\"adSegments\":[{\"start\":10,\"end\":5,\"text\":\"x\"}]}'')) =
     Inr (JObj [(str ''adSegments'',
                 JArr [JObj [(str ''start'', JNum (Fin 10)), (str ''end'', JNum (Fin 5)),
                             (str ''text'', JStr (str ''x''))]])])"
  by code_simp

lemma ex_reversed_invalid:
  "filter element_valid
     (map coerced [JObj [(str ''start'', JNum (Fin 10)), (str ''end'', JNum (Fin 5)),
                         (str ''text'', JStr (str ''x''))]]) = []"
  by code_simp

subsection \<open>C1\<close>

text \<open>
  C1, as stated, fails in its second part: the value returned is not always an
  \<open>AnalysisResult\<close> of the data model. A segment whose \<open>start\<close> is \<open>null\<close> passes the test,
  since \<open>null\<close> counts as the number 0, and is returned with a \<open>start\<close> that is not a number.
\<close>

lemma ex_null_start:
  "extractJSON (JStr (str ''{\"adSegments\":[{\"start\":null,\"end\":1,\"text\":\"x\"}]}'')) =
     Inr (JObj [(str ''adSegments'',
                 JArr [JObj [(str ''start'', JNull), (str ''end'', JNum (Fin 1)),
                             (str ''text'', JStr (str ''x''))]])])"
  by code_simp

theorem null_start_segment_returned:
  "extractJSON (JStr (str ''{\"adSegments\":[{\"start\":null,\"end\":1,\"text\":\"x\"}]}'')) =
     Inr (JObj [(str ''adSegments'',
                 JArr [JObj [(str ''start'', JNull), (str ''end'', JNum (Fin 1)),
                             (str ''text'', JStr (str ''x''))]])]) \<and>
   \<not> AnalysisResult
       (JObj [(str ''adSegments'',
               JArr [JObj [(str ''start'', JNull), (str ''end'', JNum (Fin 1)),
                           (str ''text'', JStr (str ''x''))]])]) \<and>
   typeof JNull = ''object''"
proof -
  have "\<not> AnalysisResult
       (JObj [(str ''adSegments'',
               JArr [JObj [(str ''start'', JNull), (str ''end'', JNum (Fin 1)),
                           (str ''text'', JStr (str ''x''))]])])"
    by (simp add: AdSegment_def field_def)
  with ex_null_start show ?thesis by simp
qed

text \<open>
  C1, amended. For every value given to \<open>extractJSON\<close>, a string or not, the function
  returns: no exception reaches the caller. The value returned is an object whose
  \<open>adSegments\<close> is an array; each of its elements is an object with a \<open>text\<close> that is a
  string and passes the test of the validation. It is an \<open>AnalysisResult\<close> of the data model
  if and only if every \<open>start\<close> and \<open>end\<close> returned is a number and no \<open>text\<close> returned is
  empty. The result is \<open>{ adSegments: [] }\<close> for every value that is not a string, for every
  string without a span from a \<open>{\<close> to a \<open>}\<close> (the empty string is one), and for every
  string whose span is not JSON.
\<close>

theorem extractJSON_total:
  "(\<exists>ms segments.
      extractJSON v = Inr (JObj ms) \<and> map_of ms (str ''adSegments'') = Some (JArr segments) \<and>
      (\<forall>s \<in> set segments.
         (\<exists>ps t. s = JObj ps \<and> map_of ps (str ''text'') = Some (JStr t)) \<and> element_valid s) \<and>
      (AnalysisResult (JObj ms) \<longleftrightarrow>
         (\<forall>s \<in> set segments.
            typeof (field s (str ''start'')) = ''number'' \<and>
            typeof (field s (str ''end'')) = ''number'' \<and>
            field s (str ''text'') \<noteq> JStr []))) \<and>
   ((\<forall>t. v \<noteq> JStr t) \<longrightarrow> extractJSON v = Inr empty_result) \<and>
   (\<forall>t. v = JStr t \<and> match_braces (cleanText t) = None \<longrightarrow> extractJSON v = Inr empty_result) \<and>
   (\<forall>t m e. v = JStr t \<and> match_braces (cleanText t) = Some m \<and> JSON_parse (jsonStr m) = Inl e
      \<longrightarrow> extractJSON v = Inr empty_result)"
proof -
  from extractJSON_shape[of v] obtain ms segments
    where r: "extractJSON v = Inr (JObj ms)" "map_of ms (str ''adSegments'') = Some (JArr segments)"
    by blast
  then have "segments_of (extractJSON v) = segments"
    by (simp add: segments_of_def field_def)
  with segments_of_extractJSON[of v] have valid: "element_valid s" if "s \<in> set segments" for s
    using that by auto
  have "AnalysisResult (JObj ms) \<longleftrightarrow> list_all AdSegment segments"
    by (simp add: r)
  also have "\<dots> \<longleftrightarrow> (\<forall>s \<in> set segments.
      typeof (field s (str ''start'')) = ''number'' \<and>
      typeof (field s (str ''end'')) = ''number'' \<and>
      field s (str ''text'') \<noteq> JStr [])"
    unfolding list_all_iff using valid AdSegment_iff by blast
  finally have "AnalysisResult (JObj ms) \<longleftrightarrow> (\<forall>s \<in> set segments.
      typeof (field s (str ''start'')) = ''number'' \<and>
      typeof (field s (str ''end'')) = ''number'' \<and>
      field s (str ''text'') \<noteq> JStr [])" .
  with r valid element_valid_object have "\<exists>ms segments.
      extractJSON v = Inr (JObj ms) \<and> map_of ms (str ''adSegments'') = Some (JArr segments) \<and>
      (\<forall>s \<in> set segments.
         (\<exists>ps t. s = JObj ps \<and> map_of ps (str ''text'') = Some (JStr t)) \<and> element_valid s) \<and>
      (AnalysisResult (JObj ms) \<longleftrightarrow>
         (\<forall>s \<in> set segments.
            typeof (field s (str ''start'')) = ''number'' \<and>
            typeof (field s (str ''end'')) = ''number'' \<and>
            field s (str ''text'') \<noteq> JStr []))"
    by blast
  moreover have "extractJSON v = Inr empty_result" if "\<forall>t. v \<noteq> JStr t"
    using that by (rule extractJSON_not_string)
  moreover have "extractJSON v = Inr empty_result"
    if "v = JStr t \<and> match_braces (cleanText t) = None" for t
    using that by (simp add: extractJSON_no_span)
  moreover have "extractJSON v = Inr empty_result"
    if "v = JStr t \<and> match_braces (cleanText t) = Some m \<and> JSON_parse (jsonStr m) = Inl e"
    for t m e
    using that by (simp add: extractJSON_no_parse)
  ultimately show ?thesis by blast
qed

theorem extractJSON_total_witness:
  "extractJSON (JStr []) = Inr empty_result \<and>
   extractJSON (JStr (str ''I found no sponsors.'')) = Inr empty_result \<and>
   extractJSON (JStr (str ''{adSegments: none}'')) = Inr empty_result \<and>
   extractJSON JNull = Inr empty_result \<and>
   extractJSON (JNum (Fin 7)) = Inr empty_result \<and>
   AnalysisResult empty_result"
proof -
  have a: "AnalysisResult empty_result"
    by (simp add: empty_result_def)
  have "match_braces (cleanText []) = None \<longrightarrow> extractJSON (JStr []) = Inr empty_result"
    using extractJSON_total[of "JStr []"] by blast
  with ex_empty_text have 1: "extractJSON (JStr []) = Inr empty_result" by (rule rev_mp)
  have "match_braces (cleanText (str ''I found no sponsors.'')) = None \<longrightarrow>
      extractJSON (JStr (str ''I found no sponsors.'')) = Inr empty_result"
    using extractJSON_total[of "JStr (str ''I found no sponsors.'')"] by blast
  with ex_no_braces have 2: "extractJSON (JStr (str ''I found no sponsors.'')) = Inr empty_result"
    by (rule rev_mp)
  from extractJSON_total[of "JStr (str ''{adSegments: none}'')"] ex_bad_json
  have 3: "extractJSON (JStr (str ''{adSegments: none}'')) = Inr empty_result" by blast
  from extractJSON_total[of JNull]
  have 4: "extractJSON JNull = Inr empty_result" by blast
  from extractJSON_total[of "JNum (Fin 7)"]
  have 5: "extractJSON (JNum (Fin 7)) = Inr empty_result" by blast
  from 1 2 3 4 5 a show ?thesis by (intro conjI)
qed

subsection \<open>C2\<close>

text \<open>
  C2, as stated, fails: the test of an element converts \<open>start\<close> and \<open>end\<close> to numbers, and
  the conversion of an object that has a property \<open>toString\<close> throws. The exception ends
  the filter, and the valid elements are lost with the others.
\<close>

lemma ex_thrown_parsed:
  "match_braces (cleanText (str ''{\"adSegments\":[{\"start\":{\"toString\":0},\"end\":2,\"text\":\"x\"},{\"start\":1,\"end\":2,\"text\":\"y\"}]}'')) =
     Some (str ''{\"adSegments\":[{\"start\":{\"toString\":0},\"end\":2,\"text\":\"x\"},{\"start\":1,\"end\":2,\"text\":\"y\"}]}'')"
  "JSON_parse (jsonStr (str ''{\"adSegments\":[{\"start\":{\"toString\":0},\"end\":2,\"text\":\"x\"},{\"start\":1,\"end\":2,\"text\":\"y\"}]}'')) =
     Inr (JObj [(str ''adSegments'',
                 JArr [JObj [(str ''start'', JObj [(str ''toString'', JNum (Fin 0))]),
                             (str ''end'', JNum (Fin 2)), (str ''text'', JStr (str ''x''))],
                       JObj [(str ''start'', JNum (Fin 1)), (str ''end'', JNum (Fin 2)),
                             (str ''text'', JStr (str ''y''))]])])"
  by code_simp+

lemma ex_thrown:
  "extractJSON (JStr (str ''{\"adSegments\":[{\"start\":{\"toString\":0},\"end\":2,\"text\":\"x\"},{\"start\":1,\"end\":2,\"text\":\"y\"}]}'')) =
     Inr (JObj [(str ''adSegments'', JArr [])])"
  by code_simp

lemma ex_thrown_valid:
  "element_valid
     (coerced (JObj [(str ''start'', JNum (Fin 1)), (str ''end'', JNum (Fin 2)),
                     (str ''text'', JStr (str ''y''))]))"
  by code_simp

theorem valid_segment_lost:
  "JSON_parse (jsonStr (str ''{\"adSegments\":[{\"start\":{\"toString\":0},\"end\":2,\"text\":\"x\"},{\"start\":1,\"end\":2,\"text\":\"y\"}]}'')) =
     Inr (JObj [(str ''adSegments'',
                 JArr [JObj [(str ''start'', JObj [(str ''toString'', JNum (Fin 0))]),
                             (str ''end'', JNum (Fin 2)), (str ''text'', JStr (str ''x''))],
                       JObj [(str ''start'', JNum (Fin 1)), (str ''end'', JNum (Fin 2)),
                             (str ''text'', JStr (str ''y''))]])]) \<and>
   list_all isObject
     [JObj [(str ''start'', JObj [(str ''toString'', JNum (Fin 0))]),
            (str ''end'', JNum (Fin 2)), (str ''text'', JStr (str ''x''))],
      JObj [(str ''start'', JNum (Fin 1)), (str ''end'', JNum (Fin 2)),
            (str ''text'', JStr (str ''y''))]] \<and>
   element_valid
     (coerced (JObj [(str ''start'', JNum (Fin 1)), (str ''end'', JNum (Fin 2)),
                     (str ''text'', JStr (str ''y''))])) \<and>
   extractJSON (JStr (str ''{\"adSegments\":[{\"start\":{\"toString\":0},\"end\":2,\"text\":\"x\"},{\"start\":1,\"end\":2,\"text\":\"y\"}]}'')) =
     Inr (JObj [(str ''adSegments'', JArr [])])"
proof -
  have "list_all isObject
     [JObj [(str ''start'', JObj [(str ''toString'', JNum (Fin 0))]),
            (str ''end'', JNum (Fin 2)), (str ''text'', JStr (str ''x''))],
      JObj [(str ''start'', JNum (Fin 1)), (str ''end'', JNum (Fin 2)),
            (str ''text'', JStr (str ''y''))]]"
    by simp
  with ex_thrown_parsed(2) ex_thrown_valid ex_thrown show ?thesis
    by (intro conjI)
qed

text \<open>
  C2, amended. Let the span of the text parse to a value whose \<open>adSegments\<close> is an array of
  objects. The test of an element throws if the conversion of its \<open>start\<close> to a number
  throws, or if its \<open>start\<close> is a number and the conversion of its \<open>end\<close> throws; a
  conversion throws for an object with a property \<open>toString\<close> and for an array that holds
  one. If the test of some element throws, the sanitizer returns \<open>{ adSegments: [] }\<close>. If
  not, it returns the parsed object with \<open>adSegments\<close> replaced by the elements that are
  valid after the coercion of their \<open>start\<close> and \<open>end\<close>, in the order of the array (a
  \<open>filter\<close> of the coerced elements), and the other elements are left out without an
  exception. An element whose \<open>start\<close> and \<open>end\<close> are numbers is valid if and only if
  neither is \<open>NaN\<close>, its \<open>text\<close> is a string, \<open>start \<ge> 0\<close> and \<open>end > start\<close>, and its test
  does not throw.
\<close>

theorem valid_segments_kept:
  assumes "get_prop parsed (str ''adSegments'') = Inr (JArr segments)"
    and "list_all isObject segments"
  shows "\<exists>ms. parsed = JObj ms \<and>
    (list_ex (\<lambda>s. test_throws (coerced s)) segments \<longrightarrow>
       validate parsed = Inl TypeError \<and>
       (\<forall>t m. match_braces (cleanText t) = Some m \<and> JSON_parse (jsonStr m) = Inr parsed \<longrightarrow>
          extractJSON (JStr t) = Inr empty_result)) \<and>
    (\<not> list_ex (\<lambda>s. test_throws (coerced s)) segments \<longrightarrow>
       validate parsed =
         Inr (JObj (AList.update (str ''adSegments'')
                     (JArr (filter element_valid (map coerced segments))) ms)) \<and>
       (\<forall>t m. match_braces (cleanText t) = Some m \<and> JSON_parse (jsonStr m) = Inr parsed \<longrightarrow>
          extractJSON (JStr t) =
            Inr (JObj (AList.update (str ''adSegments'')
                        (JArr (filter element_valid (map coerced segments))) ms)))) \<and>
    subseq (filter element_valid (map coerced segments)) (map coerced segments) \<and>
    (\<forall>s a b. field s (str ''start'') = JNum a \<and> field s (str ''end'') = JNum b \<longrightarrow>
       \<not> test_throws s \<and>
       (element_valid s \<longleftrightarrow>
          a \<noteq> NaN \<and> b \<noteq> NaN \<and> typeof (field s (str ''text'')) = ''string'' \<and>
          num_less a (Fin 0) = Some False \<and> num_less a b = Some True)) \<and>
    (\<forall>s a b. field s (str ''start'') = JNum (Fin a) \<and> field s (str ''end'') = JNum (Fin b) \<longrightarrow>
       (element_valid s \<longleftrightarrow> typeof (field s (str ''text'')) = ''string'' \<and> 0 \<le> a \<and> a < b)) \<and>
    (\<forall>s. test_throws s \<longleftrightarrow>
       holds_toString (field s (str ''start'')) \<or>
       (number_of (field s (str ''start'')) \<noteq> NaN \<and> holds_toString (field s (str ''end'')))) \<and>
    (\<forall>x. holds_toString x \<longleftrightarrow> ToNumber x = Inl TypeError)"
proof -
  from assms(2) have o: "\<forall>s \<in> set segments. s \<noteq> JNull \<and> s \<noteq> JUndefined"
    by (auto simp: list_all_iff)
  from get_prop_array_obj[OF assms(1)] obtain ms where ms: "parsed = JObj ms"
    by blast
  have 1: "list_ex (\<lambda>s. test_throws (coerced s)) segments \<longrightarrow>
       validate parsed = Inl TypeError \<and>
       (\<forall>t m. match_braces (cleanText t) = Some m \<and> JSON_parse (jsonStr m) = Inr parsed \<longrightarrow>
          extractJSON (JStr t) = Inr empty_result)"
  proof
    assume "list_ex (\<lambda>s. test_throws (coerced s)) segments"
    then obtain x where "x \<in> set segments" "test_throws (coerced x)"
      by (auto simp: list_ex_iff)
    with validate_throws[OF assms(1)] have "validate parsed = Inl TypeError"
      by blast
    then show "validate parsed = Inl TypeError \<and>
       (\<forall>t m. match_braces (cleanText t) = Some m \<and> JSON_parse (jsonStr m) = Inr parsed \<longrightarrow>
          extractJSON (JStr t) = Inr empty_result)"
      by (simp add: extractJSON_parsed)
  qed
  have 2: "\<not> list_ex (\<lambda>s. test_throws (coerced s)) segments \<longrightarrow>
       validate parsed =
         Inr (JObj (AList.update (str ''adSegments'')
                     (JArr (filter element_valid (map coerced segments))) ms)) \<and>
       (\<forall>t m. match_braces (cleanText t) = Some m \<and> JSON_parse (jsonStr m) = Inr parsed \<longrightarrow>
          extractJSON (JStr t) =
            Inr (JObj (AList.update (str ''adSegments'')
                        (JArr (filter element_valid (map coerced segments))) ms)))"
  proof
    assume "\<not> list_ex (\<lambda>s. test_throws (coerced s)) segments"
    with o
    have "\<forall>s \<in> set segments. s \<noteq> JNull \<and> s \<noteq> JUndefined \<and> \<not> test_throws (coerced s)"
      by (auto simp: list_ex_iff)
    from validate_objects[OF assms(1) this] ms show "validate parsed =
         Inr (JObj (AList.update (str ''adSegments'')
                     (JArr (filter element_valid (map coerced segments))) ms)) \<and>
       (\<forall>t m. match_braces (cleanText t) = Some m \<and> JSON_parse (jsonStr m) = Inr parsed \<longrightarrow>
          extractJSON (JStr t) =
            Inr (JObj (AList.update (str ''adSegments'')
                        (JArr (filter element_valid (map coerced segments))) ms)))"
      by (auto simp: extractJSON_parsed)
  qed
  have 3: "subseq (filter element_valid (map coerced segments)) (map coerced segments)"
    by simp
  have 4: "\<forall>s a b. field s (str ''start'') = JNum a \<and> field s (str ''end'') = JNum b \<longrightarrow>
       \<not> test_throws s \<and>
       (element_valid s \<longleftrightarrow>
          a \<noteq> NaN \<and> b \<noteq> NaN \<and> typeof (field s (str ''text'')) = ''string'' \<and>
          num_less a (Fin 0) = Some False \<and> num_less a b = Some True)"
    by (auto simp: test_throws_def element_valid_def number_of_def)
  have 5: "\<forall>s a b. field s (str ''start'') = JNum (Fin a) \<and> field s (str ''end'') = JNum (Fin b) \<longrightarrow>
       (element_valid s \<longleftrightarrow> typeof (field s (str ''text'')) = ''string'' \<and> 0 \<le> a \<and> a < b)"
    by (auto simp: element_valid_def number_of_def)
  have 6: "\<forall>s. test_throws s \<longleftrightarrow>
       holds_toString (field s (str ''start'')) \<or>
       (number_of (field s (str ''start'')) \<noteq> NaN \<and> holds_toString (field s (str ''end'')))"
    by (simp add: test_throws_def)
  have "holds_toString x \<longleftrightarrow> ToNumber x = Inl TypeError" for x
    by (cases "holds_toString x") (simp_all add: ToNumber_TypeError ToNumber_number_of)
  then have 7: "\<forall>x. holds_toString x \<longleftrightarrow> ToNumber x = Inl TypeError" ..
  from ms 1 2 3 4 5 6 7 show ?thesis
    by (intro exI[of _ ms] conjI)
qed

lemma ex_mixed_parsed:
  "match_braces (cleanText (str ''{\"adSegments\":[{\"start\":\"abc\",\"end\":2,\"text\":\"n\"},{\"start\":-1,\"end\":2,\"text\":\"m\"},{\"start\":10,\"end\":5,\"text\":\"x\"},{\"start\":1,\"end\":2,\"text\":5},{\"start\":\"1.5\",\"end\":2,\"text\":\"a\"},{\"start\":3,\"end\":4,\"text\":\"b\"}]}'')) =
     Some (str ''{\"adSegments\":[{\"start\":\"abc\",\"end\":2,\"text\":\"n\"},{\"start\":-1,\"end\":2,\"text\":\"m\"},{\"start\":10,\"end\":5,\"text\":\"x\"},{\"start\":1,\"end\":2,\"text\":5},{\"start\":\"1.5\",\"end\":2,\"text\":\"a\"},{\"start\":3,\"end\":4,\"text\":\"b\"}]}'')"
  "JSON_parse (jsonStr (str ''{\"adSegments\":[{\"start\":\"abc\",\"end\":2,\"text\":\"n\"},{\"start\":-1,\"end\":2,\"text\":\"m\"},{\"start\":10,\"end\":5,\"text\":\"x\"},{\"start\":1,\"end\":2,\"text\":5},{\"start\":\"1.5\",\"end\":2,\"text\":\"a\"},{\"start\":3,\"end\":4,\"text\":\"b\"}]}'')) =
     Inr (JObj [(str ''adSegments'',
                 JArr [JObj [(str ''start'', JStr (str ''abc'')), (str ''end'', JNum (Fin 2)),
                             (str ''text'', JStr (str ''n''))],
                       JObj [(str ''start'', JNum (Fin (- 1))), (str ''end'', JNum (Fin 2)),
                             (str ''text'', JStr (str ''m''))],
                       JObj [(str ''start'', JNum (Fin 10)), (str ''end'', JNum (Fin 5)),
                             (str ''text'', JStr (str ''x''))],
                       JObj [(str ''start'', JNum (Fin 1)), (str ''end'', JNum (Fin 2)),
                             (str ''text'', JNum (Fin 5))],
                       JObj [(str ''start'', JStr (str ''1.5'')), (str ''end'', JNum (Fin 2)),
                             (str ''text'', JStr (str ''a''))],
                       JObj [(str ''start'', JNum (Fin 3)), (str ''end'', JNum (Fin 4)),
                             (str ''text'', JStr (str ''b''))]])])"
  by code_simp+

lemma ex_mixed_tests:
  "\<not> list_ex (\<lambda>s. test_throws (coerced s))
       [JObj [(str ''start'', JStr (str ''abc'')), (str ''end'', JNum (Fin 2)),
              (str ''text'', JStr (str ''n''))],
        JObj [(str ''start'', JNum (Fin (- 1))), (str ''end'', JNum (Fin 2)),
              (str ''text'', JStr (str ''m''))],
        JObj [(str ''start'', JNum (Fin 10)), (str ''end'', JNum (Fin 5)),
              (str ''text'', JStr (str ''x''))],
        JObj [(str ''start'', JNum (Fin 1)), (str ''end'', JNum (Fin 2)),
              (str ''text'', JNum (Fin 5))],
        JObj [(str ''start'', JStr (str ''1.5'')), (str ''end'', JNum (Fin 2)),
              (str ''text'', JStr (str ''a''))],
        JObj [(str ''start'', JNum (Fin 3)), (str ''end'', JNum (Fin 4)),
              (str ''text'', JStr (str ''b''))]]"
  "AList.update (str ''adSegments'')
     (JArr (filter element_valid (map coerced
       [JObj [(str ''start'', JStr (str ''abc'')), (str ''end'', JNum (Fin 2)),
              (str ''text'', JStr (str ''n''))],
        JObj [(str ''start'', JNum (Fin (- 1))), (str ''end'', JNum (Fin 2)),
              (str ''text'', JStr (str ''m''))],
        JObj [(str ''start'', JNum (Fin 10)), (str ''end'', JNum (Fin 5)),
              (str ''text'', JStr (str ''x''))],
        JObj [(str ''start'', JNum (Fin 1)), (str ''end'', JNum (Fin 2)),
              (str ''text'', JNum (Fin 5))],
        JObj [(str ''start'', JStr (str ''1.5'')), (str ''end'', JNum (Fin 2)),
              (str ''text'', JStr (str ''a''))],
        JObj [(str ''start'', JNum (Fin 3)), (str ''end'', JNum (Fin 4)),
              (str ''text'', JStr (str ''b''))]])))
     [(str ''adSegments'',
       JArr [JObj [(str ''start'', JStr (str ''abc'')), (str ''end'', JNum (Fin 2)),
                   (str ''text'', JStr (str ''n''))],
             JObj [(str ''start'', JNum (Fin (- 1))), (str ''end'', JNum (Fin 2)),
                   (str ''text'', JStr (str ''m''))],
             JObj [(str ''start'', JNum (Fin 10)), (str ''end'', JNum (Fin 5)),
                   (str ''text'', JStr (str ''x''))],
             JObj [(str ''start'', JNum (Fin 1)), (str ''end'', JNum (Fin 2)),
                   (str ''text'', JNum (Fin 5))],
             JObj [(str ''start'', JStr (str ''1.5'')), (str ''end'', JNum (Fin 2)),
                   (str ''text'', JStr (str ''a''))],
             JObj [(str ''start'', JNum (Fin 3)), (str ''end'', JNum (Fin 4)),
                   (str ''text'', JStr (str ''b''))]])] =
   [(str ''adSegments'',
     JArr [JObj [(str ''start'', JNum (Fin (3 / 2))), (str ''end'', JNum (Fin 2)),
                 (str ''text'', JStr (str ''a''))],
           JObj [(str ''start'', JNum (Fin 3)), (str ''end'', JNum (Fin 4)),
                 (str ''text'', JStr (str ''b''))]])]"
  by code_simp+

lemma ex_unconvertible_end:
  "match_braces (cleanText (str ''{\"adSegments\":[{\"start\":-1,\"end\":{\"toString\":0},\"text\":\"x\"},{\"start\":1,\"end\":2,\"text\":\"y\"}]}'')) =
     Some (str ''{\"adSegments\":[{\"start\":-1,\"end\":{\"toString\":0},\"text\":\"x\"},{\"start\":1,\"end\":2,\"text\":\"y\"}]}'')"
  "JSON_parse (jsonStr (str ''{\"adSegments\":[{\"start\":-1,\"end\":{\"toString\":0},\"text\":\"x\"},{\"start\":1,\"end\":2,\"text\":\"y\"}]}'')) =
     Inr (JObj [(str ''adSegments'',
                 JArr [JObj [(str ''start'', JNum (Fin (- 1))),
                             (str ''end'', JObj [(str ''toString'', JNum (Fin 0))]),
                             (str ''text'', JStr (str ''x''))],
                       JObj [(str ''start'', JNum (Fin 1)), (str ''end'', JNum (Fin 2)),
                             (str ''text'', JStr (str ''y''))]])])"
  "list_ex (\<lambda>s. test_throws (coerced s))
     [JObj [(str ''start'', JNum (Fin (- 1))),
            (str ''end'', JObj [(str ''toString'', JNum (Fin 0))]),
            (str ''text'', JStr (str ''x''))],
      JObj [(str ''start'', JNum (Fin 1)), (str ''end'', JNum (Fin 2)),
            (str ''text'', JStr (str ''y''))]]"
  by code_simp+

theorem valid_segments_kept_witness:
  "extractJSON (JStr (str ''{\"adSegments\":[{\"start\":\"abc\",\"end\":2,\"text\":\"n\"},{\"start\":-1,\"end\":2,\"text\":\"m\"},{\"start\":10,\"end\":5,\"text\":\"x\"},{\"start\":1,\"end\":2,\"text\":5},{\"start\":\"1.5\",\"end\":2,\"text\":\"a\"},{\"start\":3,\"end\":4,\"text\":\"b\"}]}'')) =
     Inr (JObj [(str ''adSegments'',
                 JArr [JObj [(str ''start'', JNum (Fin (3 / 2))), (str ''end'', JNum (Fin 2)),
                             (str ''text'', JStr (str ''a''))],
                       JObj [(str ''start'', JNum (Fin 3)), (str ''end'', JNum (Fin 4)),
                             (str ''text'', JStr (str ''b''))]])]) \<and>
   extractJSON (JStr (str ''{\"adSegments\":[{\"start\":-1,\"end\":{\"toString\":0},\"text\":\"x\"},{\"start\":1,\"end\":2,\"text\":\"y\"}]}'')) =
     Inr empty_result"
proof -
  define A where "A = str ''{\"adSegments\":[{\"start\":\"abc\",\"end\":2,\"text\":\"n\"},{\"start\":-1,\"end\":2,\"text\":\"m\"},{\"start\":10,\"end\":5,\"text\":\"x\"},{\"start\":1,\"end\":2,\"text\":5},{\"start\":\"1.5\",\"end\":2,\"text\":\"a\"},{\"start\":3,\"end\":4,\"text\":\"b\"}]}''"
  define segsA where "segsA =
       [JObj [(str ''start'', JStr (str ''abc'')), (str ''end'', JNum (Fin 2)),
              (str ''text'', JStr (str ''n''))],
        JObj [(str ''start'', JNum (Fin (- 1))), (str ''end'', JNum (Fin 2)),
              (str ''text'', JStr (str ''m''))],
        JObj [(str ''start'', JNum (Fin 10)), (str ''end'', JNum (Fin 5)),
              (str ''text'', JStr (str ''x''))],
        JObj [(str ''start'', JNum (Fin 1)), (str ''end'', JNum (Fin 2)),
              (str ''text'', JNum (Fin 5))],
        JObj [(str ''start'', JStr (str ''1.5'')), (str ''end'', JNum (Fin 2)),
              (str ''text'', JStr (str ''a''))],
        JObj [(str ''start'', JNum (Fin 3)), (str ''end'', JNum (Fin 4)),
              (str ''text'', JStr (str ''b''))]]"
  define keptA where "keptA =
     JObj [(str ''adSegments'',
       JArr [JObj [(str ''start'', JNum (Fin (3 / 2))), (str ''end'', JNum (Fin 2)),
                   (str ''text'', JStr (str ''a''))],
             JObj [(str ''start'', JNum (Fin 3)), (str ''end'', JNum (Fin 4)),
                   (str ''text'', JStr (str ''b''))]])]"
  define B where "B = str ''{\"adSegments\":[{\"start\":-1,\"end\":{\"toString\":0},\"text\":\"x\"},{\"start\":1,\"end\":2,\"text\":\"y\"}]}''"
  define segsB where "segsB =
     [JObj [(str ''start'', JNum (Fin (- 1))),
            (str ''end'', JObj [(str ''toString'', JNum (Fin 0))]),
            (str ''text'', JStr (str ''x''))],
      JObj [(str ''start'', JNum (Fin 1)), (str ''end'', JNum (Fin 2)),
            (str ''text'', JStr (str ''y''))]]"
  have a: "match_braces (cleanText A) = Some A"
    "JSON_parse (jsonStr A) = Inr (JObj [(str ''adSegments'', JArr segsA)])"
    "\<not> list_ex (\<lambda>s. test_throws (coerced s)) segsA"
    unfolding A_def segsA_def
    by (rule ex_mixed_parsed ex_mixed_tests)+
  have k: "JObj (AList.update (str ''adSegments'')
       (JArr (filter element_valid (map coerced segsA)))
       [(str ''adSegments'', JArr segsA)]) = keptA"
    unfolding segsA_def keptA_def by (simp only: ex_mixed_tests(2))
  have b: "match_braces (cleanText B) = Some B"
    "JSON_parse (jsonStr B) = Inr (JObj [(str ''adSegments'', JArr segsB)])"
    "list_ex (\<lambda>s. test_throws (coerced s)) segsB"
    unfolding B_def segsB_def by (rule ex_unconvertible_end)+
  have ga: "get_prop (JObj [(str ''adSegments'', JArr segsA)]) (str ''adSegments'') =
      Inr (JArr segsA)"
    and gb: "get_prop (JObj [(str ''adSegments'', JArr segsB)]) (str ''adSegments'') =
      Inr (JArr segsB)"
    by simp_all
  have oa: "list_all isObject segsA" and ob: "list_all isObject segsB"
    by (simp_all add: segsA_def segsB_def)
  from valid_segments_kept[OF ga oa] obtain ms
    where ma: "JObj [(str ''adSegments'', JArr segsA)] = JObj ms"
      and ka: "\<not> list_ex (\<lambda>s. test_throws (coerced s)) segsA \<longrightarrow>
        validate (JObj [(str ''adSegments'', JArr segsA)]) =
          Inr (JObj (AList.update (str ''adSegments'')
                      (JArr (filter element_valid (map coerced segsA))) ms)) \<and>
        (\<forall>t m. match_braces (cleanText t) = Some m \<and>
                JSON_parse (jsonStr m) = Inr (JObj [(str ''adSegments'', JArr segsA)]) \<longrightarrow>
           extractJSON (JStr t) =
             Inr (JObj (AList.update (str ''adSegments'')
                         (JArr (filter element_valid (map coerced segsA))) ms)))"
    by (elim exE conjE) (rule that)
  from ka a(3) have "\<forall>t m. match_braces (cleanText t) = Some m \<and>
                JSON_parse (jsonStr m) = Inr (JObj [(str ''adSegments'', JArr segsA)]) \<longrightarrow>
           extractJSON (JStr t) =
             Inr (JObj (AList.update (str ''adSegments'')
                         (JArr (filter element_valid (map coerced segsA))) ms))"
    by simp
  with a(1,2) have "extractJSON (JStr A) =
      Inr (JObj (AList.update (str ''adSegments'')
                  (JArr (filter element_valid (map coerced segsA))) ms))"
    by simp
  moreover from ma have "ms = [(str ''adSegments'', JArr segsA)]"
    by simp
  ultimately have 1: "extractJSON (JStr A) = Inr keptA"
    by (simp only: k)
  from valid_segments_kept[OF gb ob] obtain ms'
    where kb: "list_ex (\<lambda>s. test_throws (coerced s)) segsB \<longrightarrow>
        validate (JObj [(str ''adSegments'', JArr segsB)]) = Inl TypeError \<and>
        (\<forall>t m. match_braces (cleanText t) = Some m \<and>
                JSON_parse (jsonStr m) = Inr (JObj [(str ''adSegments'', JArr segsB)]) \<longrightarrow>
           extractJSON (JStr t) = Inr empty_result)"
    by (elim exE conjE) (rule that)
  from kb b(3) have "\<forall>t m. match_braces (cleanText t) = Some m \<and>
                JSON_parse (jsonStr m) = Inr (JObj [(str ''adSegments'', JArr segsB)]) \<longrightarrow>
           extractJSON (JStr t) = Inr empty_result"
    by simp
  with b(1,2) have 2: "extractJSON (JStr B) = Inr empty_result"
    by simp
  from 1 2 show ?thesis
    unfolding A_def B_def keptA_def by (intro conjI)
qed

subsection \<open>C3\<close>

text \<open>
  C3, as the specification states it, fails: a segment whose \<open>text\<close> is the empty string
  passes the test \<open>typeof segment.text === 'string'\<close> and is returned.
\<close>

lemma ex_empty_text_segment:
  "segments_of (extractJSON (JStr (str ''{\"adSegments\":[{\"start\":1,\"end\":2,\"text\":\"\"}]}''))) =
     [JObj [(str ''start'', JNum (Fin 1)), (str ''end'', JNum (Fin 2)), (str ''text'', JStr [])]]"
  by code_simp

theorem empty_text_segment_returned:
  "segments_of (extractJSON (JStr (str ''{\"adSegments\":[{\"start\":1,\"end\":2,\"text\":\"\"}]}''))) =
     [JObj [(str ''start'', JNum (Fin 1)), (str ''end'', JNum (Fin 2)), (str ''text'', JStr [])]] \<and>
   \<not> AdSegment_invariant
       (JObj [(str ''start'', JNum (Fin 1)), (str ''end'', JNum (Fin 2)), (str ''text'', JStr [])])"
proof -
  have "\<not> AdSegment_invariant
       (JObj [(str ''start'', JNum (Fin 1)), (str ''end'', JNum (Fin 2)), (str ''text'', JStr [])])"
    by (simp add: AdSegment_invariant_def field_def)
  with ex_empty_text_segment show ?thesis by blast
qed

text \<open>
  C3, amended. Every segment that the sanitizer returns is an object whose \<open>text\<close> is a
  string, possibly empty, and whose \<open>start\<close> and \<open>end\<close> are not strings and pass the tests
  of the code: neither is \<open>NaN\<close> as a number, \<open>start >= 0\<close> and \<open>end > start\<close>; where both
  are numbers, \<open>0 \<le> start < end\<close>. A segment returned is an element of the parsed array
  in which only a \<open>start\<close> or an \<open>end\<close> that was a string has been replaced by its number;
  the elements that fail the test are left out.
\<close>

theorem returned_segments_valid:
  assumes "s \<in> set (segments_of (extractJSON v))"
  shows "(\<exists>ms t. s = JObj ms \<and> map_of ms (str ''text'') = Some (JStr t)) \<and>
    element_valid s \<and> coerced s = s \<and>
    (\<forall>a b. field s (str ''start'') = JNum a \<and> field s (str ''end'') = JNum b \<longrightarrow>
       num_less a (Fin 0) = Some False \<and> num_less a b = Some True) \<and>
    (\<forall>t m parsed segments.
       v = JStr t \<and> match_braces (cleanText t) = Some m \<and> JSON_parse (jsonStr m) = Inr parsed \<and>
       get_prop parsed (str ''adSegments'') = Inr (JArr segments) \<longrightarrow>
       s \<in> coerced ` set segments)"
proof -
  from segments_of_extractJSON obtain segments
    where "segments_of (extractJSON v) = filter element_valid (map coerced segments)" ..
  with assms have valid: "element_valid s" and "s \<in> coerced ` set segments"
    by auto
  then have "coerced s = s"
    by (auto simp: coerced_idem)
  moreover note valid element_valid_object[OF valid] element_valid_numbers[OF valid]
  moreover have "s \<in> coerced ` set segments'"
    if "v = JStr t" "match_braces (cleanText t) = Some m" "JSON_parse (jsonStr m) = Inr parsed"
      "get_prop parsed (str ''adSegments'') = Inr (JArr segments')"
    for t m parsed segments'
    using segments_of_parsed[OF that(2-4)] assms that(1) by auto
  ultimately show ?thesis by blast
qed

theorem returned_segments_valid_witness:
  "JObj [(str ''start'', JNum (Fin 1)), (str ''end'', JNum (Fin 2)), (str ''text'', JStr [])]
     \<in> set (segments_of
              (extractJSON (JStr (str ''{\"adSegments\":[{\"start\":1,\"end\":2,\"text\":\"\"}]}'')))) \<and>
   element_valid
     (JObj [(str ''start'', JNum (Fin 1)), (str ''end'', JNum (Fin 2)), (str ''text'', JStr [])]) \<and>
   num_less (Fin 1) (Fin 2) = Some True"
proof -
  let ?s = "JObj [(str ''start'', JNum (Fin 1)), (str ''end'', JNum (Fin 2)),
                  (str ''text'', JStr [])]"
  let ?v = "JStr (str ''{\"adSegments\":[{\"start\":1,\"end\":2,\"text\":\"\"}]}'')"
  have 1: "?s \<in> set (segments_of (extractJSON ?v))"
    by (simp only: ex_empty_text_segment) simp
  have "str ''start'' \<noteq> str ''end''"
    by (simp add: str_def)
  then have 2: "field ?s (str ''start'') = JNum (Fin 1)" "field ?s (str ''end'') = JNum (Fin 2)"
    by (simp_all add: field_def)
  from returned_segments_valid[OF 1] 1 2 show ?thesis by blast
qed

subsection \<open>C10\<close>

text \<open>
  C10, as stated, fails: an element that is a number, a string, a boolean or an array has
  no \<open>start\<close>, fails the test and is left out alone; the other elements are judged on
  their own.
\<close>

theorem number_element_dropped_alone:
  "JSON_parse (jsonStr (str ''{\"adSegments\":[5,{\"start\":1,\"end\":2,\"text\":\"x\"}]}'')) =
     Inr (JObj [(str ''adSegments'',
                 JArr [JNum (Fin 5),
                       JObj [(str ''start'', JNum (Fin 1)), (str ''end'', JNum (Fin 2)),
                             (str ''text'', JStr (str ''x''))]])]) \<and>
   \<not> isObject (JNum (Fin 5)) \<and>
   extractJSON (JStr (str ''{\"adSegments\":[5,{\"start\":1,\"end\":2,\"text\":\"x\"}]}'')) =
     Inr (JObj [(str ''adSegments'',
                 JArr [JObj [(str ''start'', JNum (Fin 1)), (str ''end'', JNum (Fin 2)),
                             (str ''text'', JStr (str ''x''))]])])"
  by code_simp

text \<open>
  C10, amended. If the parsed \<open>adSegments\<close> array contains \<open>null\<close>, reading \<open>segment.start\<close>
  throws inside the filter, and the sanitizer returns \<open>{ adSegments: [] }\<close> for the whole
  text, whatever the other elements are. An element that is a number, a string, a boolean
  or an array is left out alone: the callback of the filter returns false for it without an
  exception and without a change, and the result is the one for the array without these
  elements.
\<close>

lemma ex_null_element:
  "match_braces (cleanText (str ''{\"adSegments\":[{\"start\":1,\"end\":2,\"text\":\"x\"},null]}'')) =
     Some (str ''{\"adSegments\":[{\"start\":1,\"end\":2,\"text\":\"x\"},null]}'')"
  "JSON_parse (jsonStr (str ''{\"adSegments\":[{\"start\":1,\"end\":2,\"text\":\"x\"},null]}'')) =
     Inr (JObj [(str ''adSegments'',
                 JArr [JObj [(str ''start'', JNum (Fin 1)), (str ''end'', JNum (Fin 2)),
                             (str ''text'', JStr (str ''x''))],
                       JNull])])"
  by code_simp+

theorem null_element_empties_result:
  assumes "match_braces (cleanText t) = Some m" and "JSON_parse (jsonStr m) = Inr parsed"
    and "get_prop parsed (str ''adSegments'') = Inr (JArr segments)"
  shows "(JNull \<in> set segments \<longrightarrow>
       validate parsed = Inl TypeError \<and> extractJSON (JStr t) = Inr empty_result) \<and>
    (\<forall>x. primitive_or_array x \<longrightarrow> segment_callback x = Inr (x, False)) \<and>
    Array_filter segment_callback segments =
      Array_filter segment_callback (filter (\<lambda>x. \<not> primitive_or_array x) segments) \<and>
    (\<exists>ms. parsed = JObj ms \<and>
       validate parsed =
         validate (JObj (AList.update (str ''adSegments'')
                          (JArr (filter (\<lambda>x. \<not> primitive_or_array x) segments)) ms)) \<and>
       extractJSON (JStr t) =
         (case validate (JObj (AList.update (str ''adSegments'')
                                (JArr (filter (\<lambda>x. \<not> primitive_or_array x) segments)) ms)) of
            Inl e \<Rightarrow> Inr empty_result
          | Inr r \<Rightarrow> Inr r))"
proof -
  let ?rest = "filter (\<lambda>x. \<not> primitive_or_array x) segments"
  have 1: "validate parsed = Inl TypeError \<and> extractJSON (JStr t) = Inr empty_result"
    if "JNull \<in> set segments"
    using that assms by (simp add: validate_null extractJSON_parsed)
  have 2: "Array_filter segment_callback segments = Array_filter segment_callback ?rest"
    by (rule Array_filter_dropped) (rule segment_callback_primitive)
  from get_prop_array_obj[OF assms(3)] obtain ms where ms: "parsed = JObj ms"
    "map_of ms (str ''adSegments'') = Some (JArr segments)"
    by blast
  let ?ms = "AList.update (str ''adSegments'') (JArr ?rest) ms"
  have u: "AList.update (str ''adSegments'') x ?ms = AList.update (str ''adSegments'') x ms" for x
    by simp
  have "map_of ?ms (str ''adSegments'') = Some (JArr ?rest)"
    by (simp add: update_conv')
  with ms 2 have 3: "validate parsed = validate (JObj ?ms)"
    by (simp add: validate_def CreateDataProperty_update u split: sum.splits)
  with assms ms have "extractJSON (JStr t) =
      (case validate (JObj ?ms) of Inl e \<Rightarrow> Inr empty_result | Inr r \<Rightarrow> Inr r)"
    by (simp add: extractJSON_parsed)
  with 1 2 3 ms(1) segment_callback_primitive show ?thesis
    by blast
qed

theorem null_element_empties_result_witness:
  "JNull \<in> set [JObj [(str ''start'', JNum (Fin 1)), (str ''end'', JNum (Fin 2)),
                      (str ''text'', JStr (str ''x''))], JNull] \<and>
   extractJSON (JStr (str ''{\"adSegments\":[{\"start\":1,\"end\":2,\"text\":\"x\"},null]}'')) =
     Inr empty_result"
proof -
  let ?segs = "[JObj [(str ''start'', JNum (Fin 1)), (str ''end'', JNum (Fin 2)),
                      (str ''text'', JStr (str ''x''))], JNull]"
  have 1: "get_prop (JObj [(str ''adSegments'', JArr ?segs)]) (str ''adSegments'') =
      Inr (JArr ?segs)"
    by simp
  have 2: "JNull \<in> set ?segs"
    by simp
  note 3 = ex_null_element(1) and 4 = ex_null_element(2)
  have "JNull \<in> set ?segs \<longrightarrow>
      validate (JObj [(str ''adSegments'', JArr ?segs)]) = Inl TypeError \<and>
      extractJSON (JStr (str ''{\"adSegments\":[{\"start\":1,\"end\":2,\"text\":\"x\"},null]}'')) =
        Inr empty_result"
    using null_element_empties_result[OF 3 4 1] by (elim conjE)
  then have "validate (JObj [(str ''adSegments'', JArr ?segs)]) = Inl TypeError \<and>
      extractJSON (JStr (str ''{\"adSegments\":[{\"start\":1,\"end\":2,\"text\":\"x\"},null]}'')) =
        Inr empty_result"
    using 2 by (rule mp)
  then have "extractJSON (JStr (str ''{\"adSegments\":[{\"start\":1,\"end\":2,\"text\":\"x\"},null]}'')) =
        Inr empty_result"
    by (elim conjE)
  with 2 show ?thesis by (intro conjI)
qed

subsection \<open>C4\<close>










subsection \<open>C5\<close>

text \<open>
  C5. The span is repaired in this order: the unit behind the number of a \<open>start\<close>, the
  unit behind the number of an \<open>end\<close>, then the entities \<open>&amp;#39;\<close>, \<open>&amp;quot;\<close> and
  \<open>&amp;\<close>. The replacement of the unit rewrites the text at a place if and only if the text
  there is the key with its colon, white space, digits with an optional point and further
  digits, and \<open>ms\<close>; it puts the key, one space and the number there, goes on behind the
  \<open>ms\<close>, and copies every other character. A text without such a place is left as it is.
\<close>

theorem repairs_in_order:
  "jsonStr m =
     replace_all (str ''&amp;'') (str ''&'')
       (replace_all (str ''&amp;quot;'') [0x22]
         (replace_all (str ''&amp;#39;'') [0x27]
           (replace_ms (str ''\"end\":'') (replace_ms (str ''\"start\":'') m)))) \<and>
   (\<forall>k s g r. match_ms k s = Some (g, r) \<longleftrightarrow>
      (\<exists>w. white w \<and> number_text g \<and> s = k @ w @ g @ str ''ms'' @ r)) \<and>
   (\<forall>k s g r. match_ms k s = Some (g, r) \<longrightarrow>
      replace_ms k s = k @ str '' '' @ g @ replace_ms k r) \<and>
   (\<forall>k c cs. match_ms k (c # cs) = None \<longrightarrow> replace_ms k (c # cs) = c # replace_ms k cs) \<and>
   (\<forall>k s. (\<forall>t. suffix t s \<longrightarrow> match_ms k t = None) \<longrightarrow> replace_ms k s = s) \<and>
   (\<forall>p r s. p \<noteq> [] \<longrightarrow> replace_all p r (p @ s) = r @ replace_all p r s) \<and>
   (\<forall>p r c cs. \<not> prefix p (c # cs) \<longrightarrow> replace_all p r (c # cs) = c # replace_all p r cs)"
proof -
  have "str ''\"'' = [0x22]" "str [CHR 0x27] = [0x27]"
    by (simp_all add: str_def)
  then have 1: "jsonStr m =
     replace_all (str ''&amp;'') (str ''&'')
       (replace_all (str ''&amp;quot;'') [0x22]
         (replace_all (str ''&amp;#39;'') [0x27]
           (replace_ms (str ''\"end\":'') (replace_ms (str ''\"start\":'') m))))"
    by (simp add: jsonStr_def)
  have 2: "\<forall>k s g r. match_ms k s = Some (g, r) \<longleftrightarrow>
      (\<exists>w. white w \<and> number_text g \<and> s = k @ w @ g @ str ''ms'' @ r)"
    by (intro allI) (rule match_ms_iff)
  have 3: "\<forall>k s g r. match_ms k s = Some (g, r) \<longrightarrow>
      replace_ms k s = k @ str '' '' @ g @ replace_ms k r"
    by (intro allI impI) (rule replace_ms_match)
  have 4: "\<forall>k c cs. match_ms k (c # cs) = None \<longrightarrow> replace_ms k (c # cs) = c # replace_ms k cs"
    by simp
  have 5: "\<forall>k s. (\<forall>t. suffix t s \<longrightarrow> match_ms k t = None) \<longrightarrow> replace_ms k s = s"
    by (intro allI impI replace_ms_no_match) blast
  have 6: "\<forall>p r s. p \<noteq> [] \<longrightarrow> replace_all p r (p @ s) = r @ replace_all p r s"
    by (intro allI impI) (rule replace_all_match)
  have 7: "\<forall>p r c cs. \<not> prefix p (c # cs) \<longrightarrow>
      replace_all p r (c # cs) = c # replace_all p r cs"
    by simp
  from 1 2 3 4 5 6 7 show ?thesis
    by (intro conjI)
qed

lemma ex_unit_text:
  "jsonStr (str ''{\"start\": 12.5ms, \"end\": 20ms, \"offset\": 3ms, \"start\": 4s}'') =
     str ''{\"start\": 12.5, \"end\": 20, \"offset\": 3ms, \"start\": 4s}''"
  by code_simp

lemma ex_unit_parsed:
  "extractJSON (JStr (str ''{\"adSegments\":[{\"start\": 12.5ms, \"end\": 20ms, \"text\":\"x\"}]}'')) =
     Inr (JObj [(str ''adSegments'',
                 JArr [JObj [(str ''start'', JNum (Fin (25 / 2))), (str ''end'', JNum (Fin 20)),
                             (str ''text'', JStr (str ''x''))]])])"
  by code_simp

lemma ex_entities:
  "jsonStr (str ''&amp;#39; &amp;quot; &amp; &amp;amp;#39;'') =
     [0x27, 0x20, 0x22, 0x20, 0x26, 0x20] @ str ''&amp;#39;''"
  by code_simp

theorem repairs_in_order_witness:
  "white (str '' '') \<and> number_text (str ''12.5'') \<and>
   match_ms (str ''\"start\":'') (str ''\"start\": 12.5ms, \"end\": 20ms}'') =
     Some (str ''12.5'', str '', \"end\": 20ms}'') \<and>
   replace_ms (str ''\"start\":'') (str ''\"start\": 12.5ms, \"end\": 20ms}'') =
     str ''\"start\": 12.5'' @ replace_ms (str ''\"start\":'') (str '', \"end\": 20ms}'') \<and>
   jsonStr (str ''{\"start\": 12.5ms, \"end\": 20ms, \"offset\": 3ms, \"start\": 4s}'') =
     str ''{\"start\": 12.5, \"end\": 20, \"offset\": 3ms, \"start\": 4s}'' \<and>
   extractJSON (JStr (str ''{\"adSegments\":[{\"start\": 12.5ms, \"end\": 20ms, \"text\":\"x\"}]}'')) =
     Inr (JObj [(str ''adSegments'',
                 JArr [JObj [(str ''start'', JNum (Fin (25 / 2))), (str ''end'', JNum (Fin 20)),
                             (str ''text'', JStr (str ''x''))]])]) \<and>
   jsonStr (str ''&amp;#39; &amp;quot; &amp; &amp;amp;#39;'') =
     [0x27, 0x20, 0x22, 0x20, 0x26, 0x20] @ str ''&amp;#39;''"
proof -
  define k where "k = str ''\"start\":''"
  define s where "s = str ''\"start\": 12.5ms, \"end\": 20ms}''"
  define g where "g = str ''12.5''"
  define r where "r = str '', \"end\": 20ms}''"
  have w: "white (str '' '')" and n: "number_text (str ''12.5'')"
    by code_simp+
  have "s = k @ str '' '' @ g @ str ''ms'' @ r"
    by (simp add: s_def k_def g_def r_def str_def)
  with w n have "\<exists>w. white w \<and> number_text g \<and> s = k @ w @ g @ str ''ms'' @ r"
    unfolding g_def by blast
  moreover note all = repairs_in_order[of "[]"]
  from all have "\<forall>k s g r. match_ms k s = Some (g, r) \<longleftrightarrow>
      (\<exists>w. white w \<and> number_text g \<and> s = k @ w @ g @ str ''ms'' @ r)"
    by (elim conjE)
  then have iff: "match_ms k s = Some (g, r) \<longleftrightarrow>
      (\<exists>w. white w \<and> number_text g \<and> s = k @ w @ g @ str ''ms'' @ r)"
    by (elim allE)
  from all have "\<forall>k s g r. match_ms k s = Some (g, r) \<longrightarrow>
      replace_ms k s = k @ str '' '' @ g @ replace_ms k r"
    by (elim conjE)
  then have step: "match_ms k s = Some (g, r) \<longrightarrow>
      replace_ms k s = k @ str '' '' @ g @ replace_ms k r"
    by (elim allE)
  note iff step
  ultimately have m: "match_ms k s = Some (g, r)"
    and "replace_ms k s = k @ str '' '' @ g @ replace_ms k r"
    by blast+
  moreover have "k @ str '' '' @ g = str ''\"start\": 12.5''"
    by (simp add: k_def g_def str_def)
  ultimately have "replace_ms k s = str ''\"start\": 12.5'' @ replace_ms k r"
    by simp
  then have rr: "replace_ms (str ''\"start\":'') (str ''\"start\": 12.5ms, \"end\": 20ms}'') =
      str ''\"start\": 12.5'' @ replace_ms (str ''\"start\":'') (str '', \"end\": 20ms}'')"
    unfolding k_def s_def g_def r_def .
  from m have mm: "match_ms (str ''\"start\":'') (str ''\"start\": 12.5ms, \"end\": 20ms}'') =
      Some (str ''12.5'', str '', \"end\": 20ms}'')"
    unfolding k_def s_def g_def r_def .
  from w n mm rr ex_unit_text ex_unit_parsed ex_entities show ?thesis
    by (intro conjI)
qed

subsection \<open>C6\<close>




subsection \<open>C7\<close>

text \<open>
  C7. For every string given as the address: if the \<open>URL\<close> constructor throws, or the
  address has no parameter \<open>v\<close>, or the value of \<open>v\<close> is the empty string, the handler
  answers 400 with \<open>Invalid YouTube URL\<close>; \<open>getVideoId\<close> itself returns \<open>null\<close> in the first
  two cases and the empty string in the third. Otherwise \<open>getVideoId\<close> returns the value of
  \<open>v\<close> and the handler goes on with it.
\<close>

theorem video_id_extraction:
  "(new_URL C url = None \<longrightarrow>
      getVideoId C (JStr url) = JNull \<and>
      check_videoId C (JStr url) = Return (error_response 400 ''Invalid YouTube URL'')) \<and>
   (\<forall>u. new_URL C url = Some u \<and> map_of (searchParams u) (str ''v'') = None \<longrightarrow>
      getVideoId C (JStr url) = JNull \<and>
      check_videoId C (JStr url) = Return (error_response 400 ''Invalid YouTube URL'')) \<and>
   (\<forall>u. new_URL C url = Some u \<and> map_of (searchParams u) (str ''v'') = Some [] \<longrightarrow>
      getVideoId C (JStr url) = JStr [] \<and>
      check_videoId C (JStr url) = Return (error_response 400 ''Invalid YouTube URL'')) \<and>
   (\<forall>u x. new_URL C url = Some u \<and> map_of (searchParams u) (str ''v'') = Some x \<and> x \<noteq> [] \<longrightarrow>
      getVideoId C (JStr url) = JStr x \<and> check_videoId C (JStr url) = Next (JStr x)) \<and>
   (\<forall>body r. check_videoUrl body = Next (JStr url) \<and> check_videoId C (JStr url) = Return r \<longrightarrow>
      analyze_video C body = r)"
  by (auto simp: getVideoId_def check_videoId_def analyze_video_def analyze_video_try_def)

lemma ex_addresses:
  "new_URL example_services (str ''not an address'') = None"
  "new_URL example_services (str ''https://www.youtube.com/'') = Some \<lparr>searchParams = []\<rparr>"
  "new_URL example_services (str ''https://www.youtube.com/watch?v='') =
     Some \<lparr>searchParams = [(str ''v'', [])]\<rparr>"
  "new_URL example_services (str ''https://www.youtube.com/watch?v=def&t=1'') =
     Some \<lparr>searchParams = [(str ''v'', str ''def''), (str ''t'', str ''1'')]\<rparr>"
  "new_URL example_services (str ''https://www.youtube.com/watch?v=abc'') =
     Some \<lparr>searchParams = [(str ''v'', str ''abc'')]\<rparr>"
  by (simp_all add: example_services_def str_def)

theorem video_id_extraction_witness:
  "check_videoId example_services (JStr (str ''not an address'')) =
     Return (error_response 400 ''Invalid YouTube URL'') \<and>
   check_videoId example_services (JStr (str ''https://www.youtube.com/'')) =
     Return (error_response 400 ''Invalid YouTube URL'') \<and>
   check_videoId example_services (JStr (str ''https://www.youtube.com/watch?v='')) =
     Return (error_response 400 ''Invalid YouTube URL'') \<and>
   getVideoId example_services (JStr (str ''https://www.youtube.com/watch?v=def&t=1'')) =
     JStr (str ''def'') \<and>
   analyze_video example_services
     (JObj [(str ''videoUrl'', JStr (str ''https://www.youtube.com/watch?v=''))]) =
     error_response 400 ''Invalid YouTube URL''"
proof -
  let ?C = example_services
  have "new_URL ?C (str ''not an address'') = None \<longrightarrow>
      getVideoId ?C (JStr (str ''not an address'')) = JNull \<and>
      check_videoId ?C (JStr (str ''not an address'')) =
        Return (error_response 400 ''Invalid YouTube URL'')"
    using video_id_extraction[of ?C "str ''not an address''"] by (elim conjE)
  with ex_addresses(1)
  have 1: "check_videoId ?C (JStr (str ''not an address'')) =
      Return (error_response 400 ''Invalid YouTube URL'')"
    by blast
  have "\<forall>u. new_URL ?C (str ''https://www.youtube.com/'') = Some u \<and>
      map_of (searchParams u) (str ''v'') = None \<longrightarrow>
      getVideoId ?C (JStr (str ''https://www.youtube.com/'')) = JNull \<and>
      check_videoId ?C (JStr (str ''https://www.youtube.com/'')) =
        Return (error_response 400 ''Invalid YouTube URL'')"
    using video_id_extraction[of ?C "str ''https://www.youtube.com/''"] by (elim conjE)
  with ex_addresses(2)
  have 2: "check_videoId ?C (JStr (str ''https://www.youtube.com/'')) =
      Return (error_response 400 ''Invalid YouTube URL'')"
    by simp
  have "\<forall>u. new_URL ?C (str ''https://www.youtube.com/watch?v='') = Some u \<and>
      map_of (searchParams u) (str ''v'') = Some [] \<longrightarrow>
      getVideoId ?C (JStr (str ''https://www.youtube.com/watch?v='')) = JStr [] \<and>
      check_videoId ?C (JStr (str ''https://www.youtube.com/watch?v='')) =
        Return (error_response 400 ''Invalid YouTube URL'')"
    using video_id_extraction[of ?C "str ''https://www.youtube.com/watch?v=''"] by (elim conjE)
  with ex_addresses(3)
  have 3: "check_videoId ?C (JStr (str ''https://www.youtube.com/watch?v='')) =
      Return (error_response 400 ''Invalid YouTube URL'')"
    by simp
  have "str ''def'' \<noteq> []"
    by (simp add: str_def)
  moreover have "\<forall>u x. new_URL ?C (str ''https://www.youtube.com/watch?v=def&t=1'') = Some u \<and>
      map_of (searchParams u) (str ''v'') = Some x \<and> x \<noteq> [] \<longrightarrow>
      getVideoId ?C (JStr (str ''https://www.youtube.com/watch?v=def&t=1'')) = JStr x \<and>
      check_videoId ?C (JStr (str ''https://www.youtube.com/watch?v=def&t=1'')) = Next (JStr x)"
    using video_id_extraction[of ?C "str ''https://www.youtube.com/watch?v=def&t=1''"]
    by (elim conjE)
  ultimately
  have 4: "getVideoId ?C (JStr (str ''https://www.youtube.com/watch?v=def&t=1'')) =
      JStr (str ''def'')"
    using ex_addresses(4) by simp
  have "str ''https://www.youtube.com/watch?v='' \<noteq> []"
    by (simp add: str_def)
  then have "check_videoUrl (JObj [(str ''videoUrl'', JStr (str ''https://www.youtube.com/watch?v=''))]) =
      Next (JStr (str ''https://www.youtube.com/watch?v=''))"
    by (simp add: check_videoUrl_def)
  moreover have "\<forall>body r.
      check_videoUrl body = Next (JStr (str ''https://www.youtube.com/watch?v='')) \<and>
      check_videoId ?C (JStr (str ''https://www.youtube.com/watch?v='')) = Return r \<longrightarrow>
      analyze_video ?C body = r"
    using video_id_extraction[of ?C "str ''https://www.youtube.com/watch?v=''"] by (elim conjE)
  ultimately have 5: "analyze_video ?C
      (JObj [(str ''videoUrl'', JStr (str ''https://www.youtube.com/watch?v=''))]) =
      error_response 400 ''Invalid YouTube URL''"
    using 3 by blast
  from 1 2 3 4 5 show ?thesis
    by (intro conjI)
qed

subsection \<open>C8\<close>

text \<open>
  C8, as stated, fails: the handler tests \<open>!videoUrl\<close>, so every value that is not falsy
  passes, a string or not. With the number 123 as \<open>videoUrl\<close> the handler goes on to the
  extraction of the video ID.
\<close>

theorem number_video_url_accepted:
  "check_videoUrl (JObj [(str ''videoUrl'', JNum (Fin 123))]) = Next (JNum (Fin 123)) \<and>
   typeof (JNum (Fin 123)) = ''number''"
  by (simp add: check_videoUrl_def)

text \<open>
  C8, amended. For every request body from which \<open>videoUrl\<close> can be read (every value but
  \<open>null\<close> and \<open>undefined\<close>), the handler goes on to the extraction of the video ID if and
  only if \<open>videoUrl\<close> is not falsy; for a string this is: not empty. Otherwise it answers
  400 with the body \<open>{ error: 'Video URL is required', transcript: [], adSegments: [] }\<close>.
\<close>

theorem video_url_required:
  assumes "get_prop body (str ''videoUrl'') = Inr v"
  shows "(truthy v \<longrightarrow>
       check_videoUrl body = Next v \<and>
       analyze_video_try C body =
         and_then (check_videoId C v) (\<lambda>videoId.
         and_then (check_transcript C videoId) (analyze C))) \<and>
    (\<not> truthy v \<longrightarrow>
       check_videoUrl body = Return (error_response 400 ''Video URL is required'') \<and>
       analyze_video C body = error_response 400 ''Video URL is required'') \<and>
    (\<forall>s. v = JStr s \<longrightarrow> (truthy v \<longleftrightarrow> s \<noteq> [])) \<and>
    status (error_response 400 ''Video URL is required'') = 400 \<and>
    json (error_response 400 ''Video URL is required'') =
      JObj [(str ''error'', JStr (str ''Video URL is required'')),
            (str ''transcript'', JArr []), (str ''adSegments'', JArr [])]"
  using assms
  by (auto simp: check_videoUrl_def analyze_video_def analyze_video_try_def error_response_def)

theorem video_url_required_witness:
  "get_prop (JObj []) (str ''videoUrl'') = Inr JUndefined \<and>
   analyze_video example_services (JObj []) = error_response 400 ''Video URL is required'' \<and>
   get_prop (JObj [(str ''videoUrl'', JStr [])]) (str ''videoUrl'') = Inr (JStr []) \<and>
   analyze_video example_services (JObj [(str ''videoUrl'', JStr [])]) =
     error_response 400 ''Video URL is required'' \<and>
   check_videoUrl (JObj [(str ''videoUrl'', JStr (str ''x''))]) = Next (JStr (str ''x''))"
proof -
  have 1: "get_prop (JObj []) (str ''videoUrl'') = Inr JUndefined"
    and 2: "get_prop (JObj [(str ''videoUrl'', JStr [])]) (str ''videoUrl'') = Inr (JStr [])"
    and 3: "get_prop (JObj [(str ''videoUrl'', JStr (str ''x''))]) (str ''videoUrl'') =
      Inr (JStr (str ''x''))"
    by simp_all
  have x: "truthy (JStr (str ''x''))"
    by (simp add: str_def)
  from video_url_required[OF 1, of example_services]
  have a: "analyze_video example_services (JObj []) = error_response 400 ''Video URL is required''"
    by simp
  from video_url_required[OF 2, of example_services]
  have b: "analyze_video example_services (JObj [(str ''videoUrl'', JStr [])]) =
      error_response 400 ''Video URL is required''"
    by simp
  from video_url_required[OF 3, of example_services] x
  have c: "check_videoUrl (JObj [(str ''videoUrl'', JStr (str ''x''))]) = Next (JStr (str ''x''))"
    by blast
  from 1 a 2 b c show ?thesis
    by (intro conjI)
qed

subsection \<open>C9\<close>

text \<open>
  C9. Let the request have passed the test of the address and the extraction of the video
  ID. If the fetch of the transcript throws, whatever the error, the handler answers 404
  with the message that the captions may not be available; if the fetch returns a falsy
  value (\<open>undefined\<close> and \<open>null\<close> are such) or a value whose \<open>length\<close> is 0 (the empty array
  is such), it answers 404 with the message that no transcript is available. The two
  messages differ, and both bodies are \<open>{ error, transcript: [], adSegments: [] }\<close>.
\<close>

theorem transcript_failures:
  assumes "check_videoUrl body = Next videoUrl" and "check_videoId C videoUrl = Next videoId"
  shows "(\<forall>e. fetchTranscript C videoId = Inl e \<longrightarrow>
       analyze_video C body =
         error_response 404
           ''Could not fetch video transcript. The video might not have captions available.'') \<and>
    (\<forall>t. fetchTranscript C videoId = Inr t \<and>
         (\<not> truthy t \<or> get_prop t (str ''length'') = Inr (JNum (Fin 0))) \<longrightarrow>
       analyze_video C body = error_response 404 ''No transcript available for this video'') \<and>
    (\<forall>t. t = JUndefined \<or> t = JNull \<or> t = JArr [] \<longrightarrow>
       \<not> truthy t \<or> get_prop t (str ''length'') = Inr (JNum (Fin 0))) \<and>
    error_response 404
      ''Could not fetch video transcript. The video might not have captions available.'' \<noteq>
    error_response 404 ''No transcript available for this video'' \<and>
    (\<forall>m. status (error_response 404 m) = 404 \<and>
       json (error_response 404 m) =
         JObj [(str ''error'', JStr (str m)), (str ''transcript'', JArr []),
               (str ''adSegments'', JArr [])])"
proof -
  let ?failed = "''Could not fetch video transcript. The video might not have captions available.''"
  let ?none = "''No transcript available for this video''"
  from assms have cont: "analyze_video_try C body = and_then (check_transcript C videoId) (analyze C)"
    by (simp add: analyze_video_try_def)
  have 1: "\<forall>e. fetchTranscript C videoId = Inl e \<longrightarrow>
      analyze_video C body = error_response 404 ?failed"
    by (simp add: analyze_video_def cont check_transcript_def)
  have 2: "\<forall>t. fetchTranscript C videoId = Inr t \<and>
        (\<not> truthy t \<or> get_prop t (str ''length'') = Inr (JNum (Fin 0))) \<longrightarrow>
      analyze_video C body = error_response 404 ?none"
    by (simp add: analyze_video_def cont check_transcript_def)
  have 3: "\<forall>t. t = JUndefined \<or> t = JNull \<or> t = JArr [] \<longrightarrow>
      \<not> truthy t \<or> get_prop t (str ''length'') = Inr (JNum (Fin 0))"
    by auto
  have ne: "hd (str ?failed) \<noteq> hd (str ?none)"
    by (simp add: str_def)
  have "str ?failed \<noteq> str ?none"
  proof
    assume "str ?failed = str ?none"
    then have "hd (str ?failed) = hd (str ?none)"
      by (rule arg_cong)
    with ne show False ..
  qed
  then have 4: "error_response 404 ?failed \<noteq> error_response 404 ?none"
    by (simp add: error_response_def)
  have 5: "\<forall>m. status (error_response 404 m) = 404 \<and>
      json (error_response 404 m) =
        JObj [(str ''error'', JStr (str m)), (str ''transcript'', JArr []),
              (str ''adSegments'', JArr [])]"
    by (simp add: error_response_def)
  from 1 2 3 4 5 show ?thesis
    by (intro conjI)
qed

lemma ex_request_failed:
  "check_videoUrl (JObj [(str ''videoUrl'', JStr (str ''https://www.youtube.com/watch?v=abc''))]) =
     Next (JStr (str ''https://www.youtube.com/watch?v=abc''))"
  "check_videoId example_services (JStr (str ''https://www.youtube.com/watch?v=abc'')) =
     Next (JStr (str ''abc''))"
  "fetchTranscript example_services (JStr (str ''abc'')) = Inl ExternalError"
  by code_simp+

lemma ex_request_empty:
  "check_videoUrl (JObj [(str ''videoUrl'', JStr (str ''https://www.youtube.com/watch?v=def&t=1''))]) =
     Next (JStr (str ''https://www.youtube.com/watch?v=def&t=1''))"
  "check_videoId example_services (JStr (str ''https://www.youtube.com/watch?v=def&t=1'')) =
     Next (JStr (str ''def''))"
  "fetchTranscript example_services (JStr (str ''def'')) = Inr (JArr [])"
  by code_simp+

theorem transcript_failures_witness:
  "analyze_video example_services
     (JObj [(str ''videoUrl'', JStr (str ''https://www.youtube.com/watch?v=abc''))]) =
     error_response 404
       ''Could not fetch video transcript. The video might not have captions available.'' \<and>
   analyze_video example_services
     (JObj [(str ''videoUrl'', JStr (str ''https://www.youtube.com/watch?v=def&t=1''))]) =
     error_response 404 ''No transcript available for this video''"
proof -
  note 1 = ex_request_failed(1) and 2 = ex_request_failed(2) and 3 = ex_request_failed(3)
  note 4 = ex_request_empty(1) and 5 = ex_request_empty(2) and 6 = ex_request_empty(3)
  have 7: "get_prop (JArr []) (str ''length'') = Inr (JNum (Fin 0))"
    by simp
  have "\<forall>e. fetchTranscript example_services (JStr (str ''abc'')) = Inl e \<longrightarrow>
      analyze_video example_services
        (JObj [(str ''videoUrl'', JStr (str ''https://www.youtube.com/watch?v=abc''))]) =
      error_response 404
        ''Could not fetch video transcript. The video might not have captions available.''"
    using transcript_failures[OF 1 2] by (elim conjE)
  then have "fetchTranscript example_services (JStr (str ''abc'')) = Inl ExternalError \<longrightarrow>
      analyze_video example_services
        (JObj [(str ''videoUrl'', JStr (str ''https://www.youtube.com/watch?v=abc''))]) =
      error_response 404
        ''Could not fetch video transcript. The video might not have captions available.''"
    by (rule spec)
  then have a: "analyze_video example_services
      (JObj [(str ''videoUrl'', JStr (str ''https://www.youtube.com/watch?v=abc''))]) =
      error_response 404
        ''Could not fetch video transcript. The video might not have captions available.''"
    using 3 by (rule mp)
  have "\<forall>t. fetchTranscript example_services (JStr (str ''def'')) = Inr t \<and>
        (\<not> truthy t \<or> get_prop t (str ''length'') = Inr (JNum (Fin 0))) \<longrightarrow>
      analyze_video example_services
        (JObj [(str ''videoUrl'', JStr (str ''https://www.youtube.com/watch?v=def&t=1''))]) =
      error_response 404 ''No transcript available for this video''"
    using transcript_failures[OF 4 5] by (elim conjE)
  then have "fetchTranscript example_services (JStr (str ''def'')) = Inr (JArr []) \<and>
        (\<not> truthy (JArr []) \<or> get_prop (JArr []) (str ''length'') = Inr (JNum (Fin 0))) \<longrightarrow>
      analyze_video example_services
        (JObj [(str ''videoUrl'', JStr (str ''https://www.youtube.com/watch?v=def&t=1''))]) =
      error_response 404 ''No transcript available for this video''"
    by (rule spec)
  moreover from 6 7
  have "fetchTranscript example_services (JStr (str ''def'')) = Inr (JArr []) \<and>
        (\<not> truthy (JArr []) \<or> get_prop (JArr []) (str ''length'') = Inr (JNum (Fin 0)))"
    by (intro conjI disjI2)
  ultimately have b: "analyze_video example_services
      (JObj [(str ''videoUrl'', JStr (str ''https://www.youtube.com/watch?v=def&t=1''))]) =
      error_response 404 ''No transcript available for this video''"
    by (rule mp)
  from a b show ?thesis ..
qed

end
